theory Spec2Isabelle
  imports Complex_Main
begin

section \<open>Brick breaker: the simulation core of main.js\<close>

text \<open>
  The program keeps its whole state in module-level variables and mutates them in place.
  The model gathers them in one record that every operation takes and returns.
  JavaScript numbers are modelled as exact reals: rounding, NaN, infinities and the
  negative zero of IEEE doubles are outside the model. The counters \<open>score\<close> and
  \<open>lives\<close> only ever hold integers and are modelled as \<open>int\<close>.
  \<open>Math.random()\<close> is an explicit argument \<open>rnd\<close> of every operation that may serve
  the ball.
\<close>

subsection \<open>Constants\<close>

definition GAME_W :: real where "GAME_W = 360"
definition GAME_H :: real where "GAME_H = 640"
definition BALL_SPEED_X :: real where "BALL_SPEED_X = 180"
definition BALL_SPEED_Y :: real where "BALL_SPEED_Y = 260"
definition MAX_DT :: real where "MAX_DT = 1 / 30"
definition PADDLE_SMOOTHING :: real where "PADDLE_SMOOTHING = 20"

subsection \<open>Data model\<close>

datatype mode = Menu | Playing | Paused | Win | Lose

text \<open>
  The paddle and the bricks are both passed to the collision routine, which reads only
  their fields x, y, w, h. They are extensions of one record of those four fields.
\<close>

record rect =
  rect_x :: real
  rect_y :: real
  rect_w :: real
  rect_h :: real

record paddle_obj = rect +
  targetX :: real

record brick_obj = rect +
  active :: bool

record ball_obj =
  ball_x :: real
  ball_y :: real
  ball_vx :: real
  ball_vy :: real
  ball_r :: real

record input_obj =
  pointerActive :: bool
  pointerX :: real
  grabOffset :: real

record game =
  state :: mode
  score :: int
  lives :: int
  paddle :: paddle_obj
  ball :: ball_obj
  bricks :: "brick_obj list"
  input :: input_obj

text \<open>The values of the module-level variables when the script is loaded.\<close>

definition initial_game :: game where
  "initial_game =
     \<lparr> state = Menu, score = 0, lives = 3,
       paddle = \<lparr> rect_x = GAME_W / 2 - 30, rect_y = GAME_H - 40, rect_w = 60, rect_h = 10,
                  targetX = GAME_W / 2 - 30 \<rparr>,
       ball = \<lparr> ball_x = GAME_W / 2, ball_y = GAME_H - 60, ball_vx = 160, ball_vy = - 240,
                ball_r = 6 \<rparr>,
       bricks = [],
       input = \<lparr> pointerActive = False, pointerX = 0, grabOffset = 0 \<rparr> \<rparr>"

subsection \<open>Helpers\<close>

definition clamp :: "real \<Rightarrow> real \<Rightarrow> real \<Rightarrow> real" where
  "clamp v lo hi = max lo (min hi v)"

subsection \<open>Circle against rectangle\<close>

text \<open>
  The first lines of \<open>reflectBallFromRect\<close>: the point of the rectangle closest to the
  ball centre, the offsets of the centre from it, and the squared distance.
\<close>

definition closestX :: "ball_obj \<Rightarrow> 'a rect_scheme \<Rightarrow> real" where
  "closestX b rc = clamp (ball_x b) (rect_x rc) (rect_x rc + rect_w rc)"

definition closestY :: "ball_obj \<Rightarrow> 'a rect_scheme \<Rightarrow> real" where
  "closestY b rc = clamp (ball_y b) (rect_y rc) (rect_y rc + rect_h rc)"

definition offsetX :: "ball_obj \<Rightarrow> 'a rect_scheme \<Rightarrow> real" where
  "offsetX b rc = ball_x b - closestX b rc"

definition offsetY :: "ball_obj \<Rightarrow> 'a rect_scheme \<Rightarrow> real" where
  "offsetY b rc = ball_y b - closestY b rc"

definition dist2 :: "ball_obj \<Rightarrow> 'a rect_scheme \<Rightarrow> real" where
  "dist2 b rc = offsetX b rc * offsetX b rc + offsetY b rc * offsetY b rc"

text \<open>
  The branch taken when both offsets are zero: the ball is pushed out across the nearest
  edge, the first of left, right, top, bottom that attains the minimum.
\<close>

definition pushOutNearestEdge :: "ball_obj \<Rightarrow> 'a rect_scheme \<Rightarrow> ball_obj" where
  "pushOutNearestEdge b rc =
     (let left = \<bar>ball_x b - rect_x rc\<bar>;
          right = \<bar>rect_x rc + rect_w rc - ball_x b\<bar>;
          top = \<bar>ball_y b - rect_y rc\<bar>;
          bottom = \<bar>rect_y rc + rect_h rc - ball_y b\<bar>;
          minEdge = min (min (min left right) top) bottom
      in if minEdge = left then
           b\<lparr> ball_x := rect_x rc - ball_r b - 0.5, ball_vx := - \<bar>ball_vx b\<bar> \<rparr>
         else if minEdge = right then
           b\<lparr> ball_x := rect_x rc + rect_w rc + ball_r b + 0.5, ball_vx := \<bar>ball_vx b\<bar> \<rparr>
         else if minEdge = top then
           b\<lparr> ball_y := rect_y rc - ball_r b - 0.5, ball_vy := - \<bar>ball_vy b\<bar> \<rparr>
         else
           b\<lparr> ball_y := rect_y rc + rect_h rc + ball_r b + 0.5, ball_vy := \<bar>ball_vy b\<bar> \<rparr>)"

text \<open>The branch taken otherwise: reflection along the axis of smaller overlap.\<close>

definition reflectAlongAxis :: "ball_obj \<Rightarrow> 'a rect_scheme \<Rightarrow> ball_obj" where
  "reflectAlongAxis b rc =
     (let dx = offsetX b rc;
          dy = offsetY b rc;
          overlapX = ball_r b - \<bar>dx\<bar>;
          overlapY = ball_r b - \<bar>dy\<bar>
      in if overlapX < overlapY then
           (if dx > 0 then b\<lparr> ball_x := ball_x b + (overlapX + 0.5) \<rparr>
            else b\<lparr> ball_x := ball_x b - (overlapX + 0.5) \<rparr>)
           \<lparr> ball_vx := - ball_vx b \<rparr>
         else
           (if dy > 0 then b\<lparr> ball_y := ball_y b + (overlapY + 0.5) \<rparr>
            else b\<lparr> ball_y := ball_y b - (overlapY + 0.5) \<rparr>)
           \<lparr> ball_vy := - ball_vy b \<rparr>)"

text \<open>
  \<open>reflectBallFromRect\<close> returns whether the ball touched the rectangle, together with
  the ball as the call leaves it.
\<close>

definition reflectBallFromRect :: "ball_obj \<Rightarrow> 'a rect_scheme \<Rightarrow> bool \<times> ball_obj" where
  "reflectBallFromRect b rc =
     (if dist2 b rc > ball_r b * ball_r b then (False, b)
      else if \<bar>offsetX b rc\<bar> = 0 \<and> \<bar>offsetY b rc\<bar> = 0 then (True, pushOutNearestEdge b rc)
      else (True, reflectAlongAxis b rc))"

subsection \<open>Serving the ball and starting a game\<close>

text \<open>\<open>rnd\<close> is the value that \<open>Math.random()\<close> returns.\<close>

definition resetBallOnPaddle :: "real \<Rightarrow> game \<Rightarrow> game" where
  "resetBallOnPaddle rnd s =
     (let dir = (if rnd > 0.5 then 1 else - 1)
      in s\<lparr> ball := (ball s)\<lparr>
             ball_x := rect_x (paddle s) + rect_w (paddle s) / 2,
             ball_y := rect_y (paddle s) - ball_r (ball s) - 1,
             ball_vx := BALL_SPEED_X * dir,
             ball_vy := - BALL_SPEED_Y \<rparr> \<rparr>)"

definition rows :: nat where "rows = 5"
definition cols :: nat where "cols = 8"
definition brickW :: real where "brickW = (GAME_W - 20) / real cols - 4"
definition brickH :: real where "brickH = 20"
definition startY :: real where "startY = 80"
definition startX :: real where "startX = 10"

definition newBrick :: "nat \<Rightarrow> nat \<Rightarrow> brick_obj" where
  "newBrick row col =
     \<lparr> rect_x = startX + real col * (brickW + 4),
       rect_y = startY + real row * (brickH + 4),
       rect_w = brickW, rect_h = brickH, active = True \<rparr>"

text \<open>The two nested loops of \<open>initGame\<close>; each pass appends one brick.\<close>

function colLoop :: "nat \<Rightarrow> nat \<Rightarrow> brick_obj list \<Rightarrow> brick_obj list" where
  "colLoop row col bs =
     (if col < cols then colLoop row (col + 1) (bs @ [newBrick row col]) else bs)"
  by pat_completeness auto
termination
  by (relation "measure (\<lambda>(row, col, bs). cols - col)") auto

function rowLoop :: "nat \<Rightarrow> brick_obj list \<Rightarrow> brick_obj list" where
  "rowLoop row bs = (if row < rows then rowLoop (row + 1) (colLoop row 0 bs) else bs)"
  by pat_completeness auto
termination
  by (relation "measure (\<lambda>(row, bs). rows - row)") auto

declare colLoop.simps [simp del] rowLoop.simps [simp del]

definition initGame :: "real \<Rightarrow> game \<Rightarrow> game" where
  "initGame rnd s =
     (let s1 = s\<lparr> bricks := rowLoop 0 [] \<rparr>;
          s2 = s1\<lparr> paddle := (paddle s1)\<lparr> rect_x := GAME_W / 2 - rect_w (paddle s1) / 2 \<rparr> \<rparr>;
          s3 = s2\<lparr> paddle := (paddle s2)\<lparr> targetX := rect_x (paddle s2) \<rparr> \<rparr>
      in resetBallOnPaddle rnd s3)"

definition startNewGame :: "real \<Rightarrow> game \<Rightarrow> game" where
  "startNewGame rnd s = initGame rnd (s\<lparr> score := 0, lives := 3, state := Playing \<rparr>)"

subsection \<open>Input handlers\<close>

text \<open>
  The pointer handlers receive the pointer position already mapped to game coordinates
  (\<open>screenToGame(e.clientX, e.clientY).x\<close>); the mapping reads the canvas and is not
  part of the model.
\<close>

definition pointerdown :: "real \<Rightarrow> real \<Rightarrow> game \<Rightarrow> game" where
  "pointerdown gx rnd s =
     (if state s = Menu \<or> state s = Win \<or> state s = Lose then startNewGame rnd s
      else if state s = Playing then
        s\<lparr> input := (input s)\<lparr>
              pointerActive := True,
              pointerX := gx,
              grabOffset := gx - (rect_x (paddle s) + rect_w (paddle s) / 2) \<rparr> \<rparr>
      else s)"

definition pointermove :: "real \<Rightarrow> game \<Rightarrow> game" where
  "pointermove gx s =
     (if state s = Playing \<and> pointerActive (input s) then
        (let s1 = s\<lparr> input := (input s)\<lparr> pointerX := gx \<rparr> \<rparr>;
             s2 = s1\<lparr> paddle := (paddle s1)\<lparr>
                    targetX := pointerX (input s1) - grabOffset (input s1)
                               - rect_w (paddle s1) / 2 \<rparr> \<rparr>
         in s2\<lparr> paddle := (paddle s2)\<lparr>
                  targetX := clamp (targetX (paddle s2)) 0 (GAME_W - rect_w (paddle s2)) \<rparr> \<rparr>)
      else s)"

definition pointerup :: "game \<Rightarrow> game" where
  "pointerup s = s\<lparr> input := (input s)\<lparr> pointerActive := False \<rparr> \<rparr>"

definition pointercancel :: "game \<Rightarrow> game" where
  "pointercancel s = s\<lparr> input := (input s)\<lparr> pointerActive := False \<rparr> \<rparr>"

definition keydown :: "string \<Rightarrow> real \<Rightarrow> game \<Rightarrow> game" where
  "keydown key rnd s =
     (if state s = Menu \<or> state s = Win \<or> state s = Lose then
        (if key = '' '' \<or> key = ''Enter'' then startNewGame rnd s else s)
      else if state s = Playing then
        (let s1 = (if key = ''ArrowLeft'' then
                     s\<lparr> paddle := (paddle s)\<lparr>
                          targetX := clamp (targetX (paddle s) - 10) 0
                                       (GAME_W - rect_w (paddle s)) \<rparr> \<rparr>
                   else s)
         in if key = ''ArrowRight'' then
              s1\<lparr> paddle := (paddle s1)\<lparr>
                    targetX := clamp (targetX (paddle s1) + 10) 0
                                 (GAME_W - rect_w (paddle s1)) \<rparr> \<rparr>
            else s1)
      else s)"

subsection \<open>Collision handling of one tick\<close>

text \<open>
  \<open>checkCollisions\<close> is five blocks run one after the other. Each block is a function
  of the model, named after the comment that heads it in the source.
\<close>

definition wallCollisions :: "game \<Rightarrow> game" where
  "wallCollisions s =
     (let b = ball s;
          b1 = (if ball_x b - ball_r b \<le> 0
                then b\<lparr> ball_x := ball_r b, ball_vx := \<bar>ball_vx b\<bar> \<rparr> else b);
          b2 = (if ball_x b1 + ball_r b1 \<ge> GAME_W
                then b1\<lparr> ball_x := GAME_W - ball_r b1, ball_vx := - \<bar>ball_vx b1\<bar> \<rparr> else b1);
          b3 = (if ball_y b2 - ball_r b2 \<le> 0
                then b2\<lparr> ball_y := ball_r b2, ball_vy := \<bar>ball_vy b2\<bar> \<rparr> else b2)
      in s\<lparr> ball := b3 \<rparr>)"

definition paddleCollision :: "game \<Rightarrow> game" where
  "paddleCollision s =
     (let (collided, b) = reflectBallFromRect (ball s) (paddle s)
      in if collided then
           (let b1 = b\<lparr> ball_vy := - \<bar>ball_vy b\<bar> \<rparr>;
                hit = ((ball_x b1 - rect_x (paddle s)) / rect_w (paddle s)) - 0.5;
                hitClamped = clamp hit (- 0.5) 0.5
            in s\<lparr> ball := b1\<lparr> ball_vx := hitClamped * 420 \<rparr> \<rparr>)
         else s\<lparr> ball := b \<rparr>)"

text \<open>
  The loop over the bricks carries the ball and the score; it stops at the first active
  brick that the ball touches (\<open>break\<close>), leaving the rest of the list as it is.
\<close>

fun brickLoop :: "ball_obj \<Rightarrow> int \<Rightarrow> brick_obj list \<Rightarrow> ball_obj \<times> int \<times> brick_obj list" where
  "brickLoop b sc [] = (b, sc, [])"
| "brickLoop b sc (brick # rest) =
     (if active brick then
        (let (collided, b1) = reflectBallFromRect b brick
         in if collided then (b1, sc + 10, brick\<lparr> active := False \<rparr> # rest)
            else (let (b2, sc2, rest2) = brickLoop b1 sc rest in (b2, sc2, brick # rest2)))
      else (let (b2, sc2, rest2) = brickLoop b sc rest in (b2, sc2, brick # rest2)))"

definition brickCollisions :: "game \<Rightarrow> game" where
  "brickCollisions s =
     (let (b, sc, bs) = brickLoop (ball s) (score s) (bricks s)
      in s\<lparr> ball := b, score := sc, bricks := bs \<rparr>)"

definition ballOutOfBounds :: "game \<Rightarrow> bool" where
  "ballOutOfBounds s \<longleftrightarrow> ball_y (ball s) - ball_r (ball s) > GAME_H"

definition outOfBounds :: "real \<Rightarrow> game \<Rightarrow> game" where
  "outOfBounds rnd s =
     (if ballOutOfBounds s then
        (let s1 = s\<lparr> lives := lives s - 1 \<rparr>
         in if lives s1 \<le> 0 then s1\<lparr> state := Lose \<rparr> else resetBallOnPaddle rnd s1)
      else s)"

definition allCleared :: "game \<Rightarrow> bool" where
  "allCleared s \<longleftrightarrow> list_all (\<lambda>b. \<not> active b) (bricks s)"

definition winCheck :: "game \<Rightarrow> game" where
  "winCheck s = (if allCleared s then s\<lparr> state := Win \<rparr> else s)"

definition checkCollisions :: "real \<Rightarrow> game \<Rightarrow> game" where
  "checkCollisions rnd s =
     winCheck (outOfBounds rnd (brickCollisions (paddleCollision (wallCollisions s))))"

subsection \<open>The tick\<close>

definition smoothPaddle :: "real \<Rightarrow> game \<Rightarrow> game" where
  "smoothPaddle dt s =
     s\<lparr> paddle := (paddle s)\<lparr>
          rect_x := rect_x (paddle s)
                    + (targetX (paddle s) - rect_x (paddle s)) * min 1 (dt * PADDLE_SMOOTHING) \<rparr> \<rparr>"

definition moveBall :: "real \<Rightarrow> game \<Rightarrow> game" where
  "moveBall dt s =
     s\<lparr> ball := (ball s)\<lparr>
          ball_x := ball_x (ball s) + ball_vx (ball s) * dt,
          ball_y := ball_y (ball s) + ball_vy (ball s) * dt \<rparr> \<rparr>"

definition update :: "real \<Rightarrow> real \<Rightarrow> game \<Rightarrow> game" where
  "update dt rnd s =
     (if state s \<noteq> Playing then s
      else checkCollisions rnd (moveBall dt (smoothPaddle dt s)))"

text \<open>
  The state of a tick just before its out-of-bounds block: after the paddle smoothing, the
  ball movement and the wall, paddle and brick blocks.
\<close>

definition beforeOutOfBounds :: "real \<Rightarrow> game \<Rightarrow> game" where
  "beforeOutOfBounds dt s =
     brickCollisions (paddleCollision (wallCollisions (moveBall dt (smoothPaddle dt s))))"

text \<open>The ball that enters the loop over the bricks.\<close>

definition ballAtBricks :: "real \<Rightarrow> game \<Rightarrow> ball_obj" where
  "ballAtBricks dt s = ball (paddleCollision (wallCollisions (moveBall dt (smoothPaddle dt s))))"

text \<open>
  \<open>gameLoop\<close> caps the time since the previous frame at \<open>MAX_DT\<close> and runs one tick.
  \<open>elapsed\<close> is \<open>(ts - lastTime) / 1000\<close>; drawing and the request for the next frame
  do not touch the game state.
\<close>

definition gameLoop :: "real \<Rightarrow> real \<Rightarrow> game \<Rightarrow> game" where
  "gameLoop elapsed rnd s = update (if elapsed > MAX_DT then MAX_DT else elapsed) rnd s"


subsection \<open>Reachable states\<close>

text \<open>
  The browser delivers pointer and key events and animation frames in any order. The
  frame timestamps increase, so the elapsed time of a frame is never negative.
\<close>

datatype event =
  PointerDown real
  | PointerMove real
  | PointerUp
  | PointerCancel
  | KeyDown string
  | Frame real

fun dispatch :: "real \<Rightarrow> event \<Rightarrow> game \<Rightarrow> game" where
  "dispatch rnd (PointerDown gx) s = pointerdown gx rnd s"
| "dispatch rnd (PointerMove gx) s = pointermove gx s"
| "dispatch rnd PointerUp s = pointerup s"
| "dispatch rnd PointerCancel s = pointercancel s"
| "dispatch rnd (KeyDown key) s = keydown key rnd s"
| "dispatch rnd (Frame elapsed) s = gameLoop elapsed rnd s"

fun admissible :: "event \<Rightarrow> bool" where
  "admissible (Frame elapsed) = (0 \<le> elapsed)"
| "admissible _ = True"

inductive reachable :: "game \<Rightarrow> bool" where
  initial: "reachable initial_game"
| step: "reachable s \<Longrightarrow> admissible e \<Longrightarrow> reachable (dispatch rnd e s)"

subsection \<open>Invariants\<close>

text \<open>
  Every brick of the grid has the size that \<open>initGame\<close> gives it and lies between the
  first and the last row.
\<close>

definition brickInGrid :: "brick_obj \<Rightarrow> bool" where
  "brickInGrid b \<longleftrightarrow>
     rect_w b = brickW \<and> rect_h b = brickH
     \<and> startY \<le> rect_y b \<and> rect_y b \<le> startY + real (rows - 1) * (brickH + 4)"

text \<open>
  What holds of every state the program can reach, apart from the position of the
  paddle: the paddle keeps its size and height, the ball its radius, a started game has
  the full grid, and the mode agrees with the lives and the bricks.
\<close>

definition game_inv :: "game \<Rightarrow> bool" where
  "game_inv s \<longleftrightarrow>
     rect_w (paddle s) = 60 \<and> rect_h (paddle s) = 10 \<and> rect_y (paddle s) = GAME_H - 40
     \<and> ball_r (ball s) = 6
     \<and> list_all brickInGrid (bricks s)
     \<and> (state s \<noteq> Menu \<longrightarrow> length (bricks s) = rows * cols)
     \<and> (state s = Playing \<longrightarrow> 0 < lives s \<and> \<not> allCleared s)
     \<and> (state s = Win \<longrightarrow> allCleared s)
     \<and> (state s = Lose \<longrightarrow> lives s \<le> 0 \<and> \<not> allCleared s)
     \<and> state s \<noteq> Paused"

definition paddle_inv :: "game \<Rightarrow> bool" where
  "paddle_inv s \<longleftrightarrow>
     0 \<le> rect_x (paddle s) \<and> rect_x (paddle s) \<le> GAME_W - rect_w (paddle s)
     \<and> 0 \<le> targetX (paddle s) \<and> targetX (paddle s) \<le> GAME_W - rect_w (paddle s)"

subsection \<open>Example states\<close>


definition scenarioGame :: game where
  "scenarioGame =
     initial_game\<lparr> state := Playing,
       ball := \<lparr> ball_x = 180, ball_y = 600, ball_vx = 0, ball_vy = 260, ball_r = 6 \<rparr>,
       bricks := [newBrick 0 0] \<rparr>"

subsection \<open>The collision algorithm in the words of the specification\<close>

text \<open>
  A second description of the collision routine, written from the specification: the
  axis of smaller overlap, the direction away from the rectangle, and the nearest edge
  as the first minimum in the order left, right, top, bottom. In the centred case the
  velocity component of the push axis is set to point away from the rectangle.
\<close>

datatype axis = AxisX | AxisY

datatype edge = LeftEdge | RightEdge | TopEdge | BottomEdge

definition spec_overlap :: "ball_obj \<Rightarrow> 'a rect_scheme \<Rightarrow> axis \<Rightarrow> real" where
  "spec_overlap b rc a =
     (case a of AxisX \<Rightarrow> ball_r b - \<bar>offsetX b rc\<bar> | AxisY \<Rightarrow> ball_r b - \<bar>offsetY b rc\<bar>)"

definition spec_axis :: "ball_obj \<Rightarrow> 'a rect_scheme \<Rightarrow> axis" where
  "spec_axis b rc = (if spec_overlap b rc AxisX < spec_overlap b rc AxisY then AxisX else AxisY)"

definition spec_away :: "real \<Rightarrow> real" where
  "spec_away d = (if d > 0 then 1 else - 1)"

definition spec_reflect :: "ball_obj \<Rightarrow> 'a rect_scheme \<Rightarrow> axis \<Rightarrow> ball_obj" where
  "spec_reflect b rc a =
     (case a of
        AxisX \<Rightarrow> b\<lparr> ball_x := ball_x b + spec_away (offsetX b rc) * (spec_overlap b rc AxisX + 0.5),
                     ball_vx := - ball_vx b \<rparr>
      | AxisY \<Rightarrow> b\<lparr> ball_y := ball_y b + spec_away (offsetY b rc) * (spec_overlap b rc AxisY + 0.5),
                     ball_vy := - ball_vy b \<rparr>)"

definition spec_edgeDistance :: "ball_obj \<Rightarrow> 'a rect_scheme \<Rightarrow> edge \<Rightarrow> real" where
  "spec_edgeDistance b rc e =
     (case e of
        LeftEdge \<Rightarrow> \<bar>ball_x b - rect_x rc\<bar>
      | RightEdge \<Rightarrow> \<bar>rect_x rc + rect_w rc - ball_x b\<bar>
      | TopEdge \<Rightarrow> \<bar>ball_y b - rect_y rc\<bar>
      | BottomEdge \<Rightarrow> \<bar>rect_y rc + rect_h rc - ball_y b\<bar>)"

fun firstMinimum :: "(edge \<Rightarrow> real) \<Rightarrow> edge \<Rightarrow> edge list \<Rightarrow> edge" where
  "firstMinimum d best [] = best"
| "firstMinimum d best (e # es) = firstMinimum d (if d e < d best then e else best) es"

definition spec_nearestEdge :: "ball_obj \<Rightarrow> 'a rect_scheme \<Rightarrow> edge" where
  "spec_nearestEdge b rc =
     firstMinimum (spec_edgeDistance b rc) LeftEdge [RightEdge, TopEdge, BottomEdge]"

definition spec_pushOut :: "ball_obj \<Rightarrow> 'a rect_scheme \<Rightarrow> edge \<Rightarrow> ball_obj" where
  "spec_pushOut b rc e =
     (case e of
        LeftEdge \<Rightarrow> b\<lparr> ball_x := rect_x rc - (ball_r b + 0.5), ball_vx := - \<bar>ball_vx b\<bar> \<rparr>
      | RightEdge \<Rightarrow> b\<lparr> ball_x := rect_x rc + rect_w rc + (ball_r b + 0.5), ball_vx := \<bar>ball_vx b\<bar> \<rparr>
      | TopEdge \<Rightarrow> b\<lparr> ball_y := rect_y rc - (ball_r b + 0.5), ball_vy := - \<bar>ball_vy b\<bar> \<rparr>
      | BottomEdge \<Rightarrow> b\<lparr> ball_y := rect_y rc + rect_h rc + (ball_r b + 0.5), ball_vy := \<bar>ball_vy b\<bar> \<rparr>)"

definition spec_resolveCircleRect :: "ball_obj \<Rightarrow> 'a rect_scheme \<Rightarrow> bool \<times> ball_obj" where
  "spec_resolveCircleRect b rc =
     (if dist2 b rc > ball_r b * ball_r b then (False, b)
      else if offsetX b rc = 0 \<and> offsetY b rc = 0
        then (True, spec_pushOut b rc (spec_nearestEdge b rc))
        else (True, spec_reflect b rc (spec_axis b rc)))"

section \<open>Properties\<close>

subsection \<open>Geometry of the closest point\<close>

lemma offsetX_pos: "0 < offsetX b rc \<Longrightarrow> 0 \<le> rect_w rc \<Longrightarrow> closestX b rc = rect_x rc + rect_w rc"
  by (auto simp: offsetX_def closestX_def clamp_def max_def min_def split: if_splits)

lemma offsetX_neg: "offsetX b rc < 0 \<Longrightarrow> 0 \<le> rect_w rc \<Longrightarrow> closestX b rc = rect_x rc"
  by (auto simp: offsetX_def closestX_def clamp_def max_def min_def split: if_splits)

lemma offsetY_pos: "0 < offsetY b rc \<Longrightarrow> 0 \<le> rect_h rc \<Longrightarrow> closestY b rc = rect_y rc + rect_h rc"
  by (auto simp: offsetY_def closestY_def clamp_def max_def min_def split: if_splits)

lemma offsetY_neg: "offsetY b rc < 0 \<Longrightarrow> 0 \<le> rect_h rc \<Longrightarrow> closestY b rc = rect_y rc"
  by (auto simp: offsetY_def closestY_def clamp_def max_def min_def split: if_splits)

lemma right_of_rect: "0 \<le> rect_w rc \<Longrightarrow> rect_x rc + rect_w rc \<le> ball_x b \<Longrightarrow> offsetX b rc = ball_x b - (rect_x rc + rect_w rc)"
  by (auto simp: offsetX_def closestX_def clamp_def max_def min_def split: if_splits)

lemma left_of_rect: "0 \<le> rect_w rc \<Longrightarrow> ball_x b \<le> rect_x rc \<Longrightarrow> offsetX b rc = ball_x b - rect_x rc"
  by (auto simp: offsetX_def closestX_def clamp_def max_def min_def split: if_splits)

lemma below_rect: "0 \<le> rect_h rc \<Longrightarrow> rect_y rc + rect_h rc \<le> ball_y b \<Longrightarrow> offsetY b rc = ball_y b - (rect_y rc + rect_h rc)"
  by (auto simp: offsetY_def closestY_def clamp_def max_def min_def split: if_splits)

lemma above_rect: "0 \<le> rect_h rc \<Longrightarrow> ball_y b \<le> rect_y rc \<Longrightarrow> offsetY b rc = ball_y b - rect_y rc"
  by (auto simp: offsetY_def closestY_def clamp_def max_def min_def split: if_splits)

lemma far_in_x: 
  assumes "\<bar>offsetX b rc\<bar> = ball_r b + 1/2" "0 \<le> ball_r b"
  shows "ball_r b * ball_r b < dist2 b rc"
proof -
  have "ball_r b * ball_r b < (ball_r b + 1/2) * (ball_r b + 1/2)"
    using assms(2) by (simp add: algebra_simps)
  also have "\<dots> = offsetX b rc * offsetX b rc"
    using assms(1) by (metis abs_mult_self_eq)
  also have "\<dots> \<le> dist2 b rc"
    by (simp add: dist2_def)
  finally show ?thesis .
qed

lemma far_in_y: 
  assumes "\<bar>offsetY b rc\<bar> = ball_r b + 1/2" "0 \<le> ball_r b"
  shows "ball_r b * ball_r b < dist2 b rc"
proof -
  have "ball_r b * ball_r b < (ball_r b + 1/2) * (ball_r b + 1/2)"
    using assms(2) by (simp add: algebra_simps)
  also have "\<dots> = offsetY b rc * offsetY b rc"
    using assms(1) by (metis abs_mult_self_eq)
  also have "\<dots> \<le> dist2 b rc"
    by (simp add: dist2_def)
  finally show ?thesis .
qed

subsection \<open>The collision routine\<close>

lemma if_chain4:
  "P a \<Longrightarrow> P b \<Longrightarrow> P c \<Longrightarrow> P d \<Longrightarrow>
   P (if c1 then a else if c2 then b else if c3 then c else d)"
  by simp

lemma pushOutNearestEdge_r: "ball_r (pushOutNearestEdge b rc) = ball_r b"
  unfolding pushOutNearestEdge_def Let_def by (rule if_chain4) simp_all

lemma pushOutNearestEdge_position:
  "ball_x (pushOutNearestEdge b rc) = rect_x rc - ball_r b - 1/2
   \<or> ball_x (pushOutNearestEdge b rc) = rect_x rc + rect_w rc + ball_r b + 1/2
   \<or> ball_y (pushOutNearestEdge b rc) = rect_y rc - ball_r b - 1/2
   \<or> ball_y (pushOutNearestEdge b rc) = rect_y rc + rect_h rc + ball_r b + 1/2"
  unfolding pushOutNearestEdge_def Let_def by (rule if_chain4) simp_all

lemma pushOutNearestEdge_clear:
  assumes "0 \<le> ball_r b" "0 \<le> rect_w rc" "0 \<le> rect_h rc"
  shows "ball_r (pushOutNearestEdge b rc) * ball_r (pushOutNearestEdge b rc)
         < dist2 (pushOutNearestEdge b rc) rc"
proof -
  let ?b = "pushOutNearestEdge b rc"
  have r: "ball_r ?b = ball_r b"
    by (rule pushOutNearestEdge_r)
  consider (l) "ball_x ?b = rect_x rc - ball_r b - 1/2"
    | (r) "ball_x ?b = rect_x rc + rect_w rc + ball_r b + 1/2"
    | (t) "ball_y ?b = rect_y rc - ball_r b - 1/2"
    | (b) "ball_y ?b = rect_y rc + rect_h rc + ball_r b + 1/2"
    using pushOutNearestEdge_position [of b rc] by blast
  then have "\<bar>offsetX ?b rc\<bar> = ball_r ?b + 1/2 \<or> \<bar>offsetY ?b rc\<bar> = ball_r ?b + 1/2"
  proof cases
    case l
    then have "offsetX ?b rc = - (ball_r b + 1/2)"
      using left_of_rect [of rc ?b] assms by simp
    then show ?thesis using r assms(1) by simp
  next
    case r
    then have "offsetX ?b rc = ball_r b + 1/2"
      using right_of_rect [of rc ?b] assms by simp
    then show ?thesis using \<open>ball_r ?b = ball_r b\<close> assms(1) by simp
  next
    case t
    then have "offsetY ?b rc = - (ball_r b + 1/2)"
      using above_rect [of rc ?b] assms by simp
    then show ?thesis using r assms(1) by simp
  next
    case b
    then have "offsetY ?b rc = ball_r b + 1/2"
      using below_rect [of rc ?b] assms by simp
    then show ?thesis using r assms(1) by simp
  qed
  then show ?thesis
    using far_in_x [of ?b rc] far_in_y [of ?b rc] assms(1) r by auto
qed

lemma reflectAlongAxis_clear:
  assumes "0 \<le> ball_r b" "0 \<le> rect_w rc" "0 \<le> rect_h rc"
    and "offsetX b rc \<noteq> 0 \<or> offsetY b rc \<noteq> 0"
  shows "ball_r (reflectAlongAxis b rc) * ball_r (reflectAlongAxis b rc)
         < dist2 (reflectAlongAxis b rc) rc"
proof -
  let ?b = "reflectAlongAxis b rc"
  have r: "ball_r ?b = ball_r b"
    by (simp add: reflectAlongAxis_def Let_def)
  have "\<bar>offsetX ?b rc\<bar> = ball_r ?b + 1/2 \<or> \<bar>offsetY ?b rc\<bar> = ball_r ?b + 1/2"
  proof (cases "ball_r b - \<bar>offsetX b rc\<bar> < ball_r b - \<bar>offsetY b rc\<bar>")
    case True
    then have nz: "offsetX b rc \<noteq> 0" by auto
    show ?thesis
    proof (cases "offsetX b rc > 0")
      case pos: True
      have c: "closestX b rc = rect_x rc + rect_w rc"
        using pos assms(2) by (rule offsetX_pos)
      have x: "ball_x ?b = rect_x rc + rect_w rc + ball_r b + 1/2"
        using True pos c by (simp add: reflectAlongAxis_def Let_def offsetX_def)
      have "offsetX ?b rc = ball_r b + 1/2"
        using right_of_rect [of rc ?b] x assms by simp
      then show ?thesis using r assms(1) by simp
    next
      case False
      then have neg: "offsetX b rc < 0" using nz by simp
      have c: "closestX b rc = rect_x rc"
        using neg assms(2) by (rule offsetX_neg)
      have x: "ball_x ?b = rect_x rc - ball_r b - 1/2"
        using True neg c by (simp add: reflectAlongAxis_def Let_def offsetX_def)
      have "offsetX ?b rc = - (ball_r b + 1/2)"
        using left_of_rect [of rc ?b] x assms by simp
      then show ?thesis using r assms(1) by simp
    qed
  next
    case False
    then have nz: "offsetY b rc \<noteq> 0" using assms(4) by auto
    show ?thesis
    proof (cases "offsetY b rc > 0")
      case pos: True
      have c: "closestY b rc = rect_y rc + rect_h rc"
        using pos assms(3) by (rule offsetY_pos)
      have y: "ball_y ?b = rect_y rc + rect_h rc + ball_r b + 1/2"
        using False pos c by (simp add: reflectAlongAxis_def Let_def offsetY_def)
      have "offsetY ?b rc = ball_r b + 1/2"
        using below_rect [of rc ?b] y assms by simp
      then show ?thesis using r assms(1) by simp
    next
      case nonpos: False
      then have neg: "offsetY b rc < 0" using nz by simp
      have c: "closestY b rc = rect_y rc"
        using neg assms(3) by (rule offsetY_neg)
      have y: "ball_y ?b = rect_y rc - ball_r b - 1/2"
        using False neg c by (simp add: reflectAlongAxis_def Let_def offsetY_def)
      have "offsetY ?b rc = - (ball_r b + 1/2)"
        using above_rect [of rc ?b] y assms by simp
      then show ?thesis using r assms(1) by simp
    qed
  qed
  then show ?thesis
    using far_in_x [of ?b rc] far_in_y [of ?b rc] assms(1) r by auto
qed

lemma firstMinimum_chain:
  "firstMinimum d LeftEdge [RightEdge, TopEdge, BottomEdge] =
     (if min (min (min (d LeftEdge) (d RightEdge)) (d TopEdge)) (d BottomEdge) = d LeftEdge
        then LeftEdge
      else if min (min (min (d LeftEdge) (d RightEdge)) (d TopEdge)) (d BottomEdge) = d RightEdge
        then RightEdge
      else if min (min (min (d LeftEdge) (d RightEdge)) (d TopEdge)) (d BottomEdge) = d TopEdge
        then TopEdge
      else BottomEdge)"
  by (auto simp: min_def)

lemma edge_chain:
  "g LeftEdge = A \<Longrightarrow> g RightEdge = B \<Longrightarrow> g TopEdge = C \<Longrightarrow> g BottomEdge = D \<Longrightarrow>
   (if c1 then A else if c2 then B else if c3 then C else D)
   = g (if c1 then LeftEdge else if c2 then RightEdge else if c3 then TopEdge else BottomEdge)"
  by simp

lemma pushOutNearestEdge_spec: "pushOutNearestEdge b rc = spec_pushOut b rc (spec_nearestEdge b rc)"
proof -
  have d: "spec_edgeDistance b rc LeftEdge = \<bar>ball_x b - rect_x rc\<bar>"
    "spec_edgeDistance b rc RightEdge = \<bar>rect_x rc + rect_w rc - ball_x b\<bar>"
    "spec_edgeDistance b rc TopEdge = \<bar>ball_y b - rect_y rc\<bar>"
    "spec_edgeDistance b rc BottomEdge = \<bar>rect_y rc + rect_h rc - ball_y b\<bar>"
    by (simp_all add: spec_edgeDistance_def)
  show ?thesis
    unfolding spec_nearestEdge_def firstMinimum_chain d pushOutNearestEdge_def Let_def
    by (rule edge_chain) (simp_all add: spec_pushOut_def)
qed

lemma reflectAlongAxis_spec: "reflectAlongAxis b rc = spec_reflect b rc (spec_axis b rc)"
  by (simp add: reflectAlongAxis_def Let_def spec_reflect_def spec_axis_def spec_overlap_def
      spec_away_def)

text \<open>
  C2 (amended). \<open>reflectBallFromRect\<close> is the algorithm of the specification: no change
  without overlap; otherwise, when some offset from the closest point is not zero, the
  axis of strictly smaller overlap (the Y axis on a tie), a push of overlap + 0.5 away
  from the rectangle and the negation of that axis's velocity component; and when both
  offsets are zero, a push across the nearest edge (first minimum of left, right, top,
  bottom) to a distance of radius + 0.5 from it, with the velocity component of that axis
  set to point away from the rectangle (\<open>- |v|\<close> for left and top, \<open>|v|\<close> for right
  and bottom) rather than negated.
\<close>

theorem resolve_follows_algorithm:
  "reflectBallFromRect b rc = spec_resolveCircleRect b rc"
  by (simp add: reflectBallFromRect_def spec_resolveCircleRect_def pushOutNearestEdge_spec
      reflectAlongAxis_spec)

theorem resolve_follows_algorithm_witness:
  "spec_nearestEdge \<lparr> ball_x = 98, ball_y = 5, ball_vx = - 50, ball_vy = 70, ball_r = 6 \<rparr>
                    \<lparr> rect_x = 0, rect_y = 0, rect_w = 100, rect_h = 10 \<rparr> = RightEdge
   \<and> reflectBallFromRect \<lparr> ball_x = 98, ball_y = 5, ball_vx = - 50, ball_vy = 70, ball_r = 6 \<rparr>
                          \<lparr> rect_x = 0, rect_y = 0, rect_w = 100, rect_h = 10 \<rparr>
       = (True, \<lparr> ball_x = 213 / 2, ball_y = 5, ball_vx = 50, ball_vy = 70, ball_r = 6 \<rparr>)"
  using resolve_follows_algorithm
    [of "\<lparr> ball_x = 98, ball_y = 5, ball_vx = - 50, ball_vy = 70, ball_r = 6 \<rparr>"
        "\<lparr> rect_x = 0, rect_y = 0, rect_w = 100, rect_h = 10 \<rparr>"]
  by (simp add: spec_resolveCircleRect_def spec_nearestEdge_def spec_edgeDistance_def
      spec_pushOut_def dist2_def offsetX_def offsetY_def closestX_def closestY_def clamp_def)

lemma pushOutNearestEdge_velocity:
  assumes "0 \<le> ball_r b" "0 \<le> rect_w rc" "0 \<le> rect_h rc"
  shows "(ball_x (pushOutNearestEdge b rc) < rect_x rc
          \<and> ball_vx (pushOutNearestEdge b rc) = - \<bar>ball_vx b\<bar>
          \<and> ball_y (pushOutNearestEdge b rc) = ball_y b
          \<and> ball_vy (pushOutNearestEdge b rc) = ball_vy b)
       \<or> (rect_x rc + rect_w rc < ball_x (pushOutNearestEdge b rc)
          \<and> ball_vx (pushOutNearestEdge b rc) = \<bar>ball_vx b\<bar>
          \<and> ball_y (pushOutNearestEdge b rc) = ball_y b
          \<and> ball_vy (pushOutNearestEdge b rc) = ball_vy b)
       \<or> (ball_y (pushOutNearestEdge b rc) < rect_y rc
          \<and> ball_vy (pushOutNearestEdge b rc) = - \<bar>ball_vy b\<bar>
          \<and> ball_x (pushOutNearestEdge b rc) = ball_x b
          \<and> ball_vx (pushOutNearestEdge b rc) = ball_vx b)
       \<or> (rect_y rc + rect_h rc < ball_y (pushOutNearestEdge b rc)
          \<and> ball_vy (pushOutNearestEdge b rc) = \<bar>ball_vy b\<bar>
          \<and> ball_x (pushOutNearestEdge b rc) = ball_x b
          \<and> ball_vx (pushOutNearestEdge b rc) = ball_vx b)"
  unfolding pushOutNearestEdge_def Let_def
  by (rule if_chain4) (use assms in simp_all)

lemma reflectAlongAxis_velocity:
  "(ball_vx (reflectAlongAxis b rc) = - ball_vx b
      \<and> ball_vy (reflectAlongAxis b rc) = ball_vy b
      \<and> ball_y (reflectAlongAxis b rc) = ball_y b)
   \<or> (ball_vy (reflectAlongAxis b rc) = - ball_vy b
      \<and> ball_vx (reflectAlongAxis b rc) = ball_vx b
      \<and> ball_x (reflectAlongAxis b rc) = ball_x b)"
  by (simp add: reflectAlongAxis_def Let_def)

text \<open>
  C1 (amended). For a ball of non-negative radius that overlaps a rectangle of non-negative
  width and height, one call reports the collision and leaves the ball clear of the
  rectangle: the squared distance from the new centre to the closest point of the
  rectangle exceeds the squared radius. When some offset is not zero, exactly one
  velocity component is negated and the ball moves along that axis only. When both offsets
  are zero, the ball leaves across one edge and the velocity component of that axis is set
  to point away from the rectangle, which changes its sign only if it pointed into the
  rectangle; the other component is unchanged.
\<close>

theorem overlap_resolved:
  assumes "dist2 b rc \<le> ball_r b * ball_r b"
    and "0 \<le> ball_r b" and "0 \<le> rect_w rc" and "0 \<le> rect_h rc"
  shows "fst (reflectBallFromRect b rc)
    \<and> ball_r (snd (reflectBallFromRect b rc)) = ball_r b
    \<and> ball_r b * ball_r b < dist2 (snd (reflectBallFromRect b rc)) rc
    \<and> (offsetX b rc \<noteq> 0 \<or> offsetY b rc \<noteq> 0 \<longrightarrow>
         (ball_vx (snd (reflectBallFromRect b rc)) = - ball_vx b
            \<and> ball_vy (snd (reflectBallFromRect b rc)) = ball_vy b
            \<and> ball_y (snd (reflectBallFromRect b rc)) = ball_y b)
         \<or> (ball_vy (snd (reflectBallFromRect b rc)) = - ball_vy b
            \<and> ball_vx (snd (reflectBallFromRect b rc)) = ball_vx b
            \<and> ball_x (snd (reflectBallFromRect b rc)) = ball_x b))
    \<and> (offsetX b rc = 0 \<and> offsetY b rc = 0 \<longrightarrow>
         (ball_x (snd (reflectBallFromRect b rc)) < rect_x rc
            \<and> ball_vx (snd (reflectBallFromRect b rc)) = - \<bar>ball_vx b\<bar>
            \<and> ball_y (snd (reflectBallFromRect b rc)) = ball_y b
            \<and> ball_vy (snd (reflectBallFromRect b rc)) = ball_vy b)
         \<or> (rect_x rc + rect_w rc < ball_x (snd (reflectBallFromRect b rc))
            \<and> ball_vx (snd (reflectBallFromRect b rc)) = \<bar>ball_vx b\<bar>
            \<and> ball_y (snd (reflectBallFromRect b rc)) = ball_y b
            \<and> ball_vy (snd (reflectBallFromRect b rc)) = ball_vy b)
         \<or> (ball_y (snd (reflectBallFromRect b rc)) < rect_y rc
            \<and> ball_vy (snd (reflectBallFromRect b rc)) = - \<bar>ball_vy b\<bar>
            \<and> ball_x (snd (reflectBallFromRect b rc)) = ball_x b
            \<and> ball_vx (snd (reflectBallFromRect b rc)) = ball_vx b)
         \<or> (rect_y rc + rect_h rc < ball_y (snd (reflectBallFromRect b rc))
            \<and> ball_vy (snd (reflectBallFromRect b rc)) = \<bar>ball_vy b\<bar>
            \<and> ball_x (snd (reflectBallFromRect b rc)) = ball_x b
            \<and> ball_vx (snd (reflectBallFromRect b rc)) = ball_vx b))"
proof (cases "offsetX b rc = 0 \<and> offsetY b rc = 0")
  case True
  then have e: "reflectBallFromRect b rc = (True, pushOutNearestEdge b rc)"
    using assms(1) by (simp add: reflectBallFromRect_def)
  show ?thesis
    unfolding e fst_conv snd_conv
    using True pushOutNearestEdge_r [of b rc] pushOutNearestEdge_clear [OF assms(2-4)]
      pushOutNearestEdge_velocity [OF assms(2-4)]
    by (simp add: pushOutNearestEdge_r)
next
  case False
  then have e: "reflectBallFromRect b rc = (True, reflectAlongAxis b rc)"
    using assms(1) by (auto simp: reflectBallFromRect_def)
  have nz: "offsetX b rc \<noteq> 0 \<or> offsetY b rc \<noteq> 0"
    using False by blast
  have r: "ball_r (reflectAlongAxis b rc) = ball_r b"
    by (simp add: reflectAlongAxis_def Let_def)
  show ?thesis
    unfolding e fst_conv snd_conv
    using False r reflectAlongAxis_clear [OF assms(2-4) nz] reflectAlongAxis_velocity [of b rc]
    by auto
qed

theorem overlap_resolved_witness:
  "dist2 \<lparr> ball_x = 180, ball_y = 596, ball_vx = 30, ball_vy = 260, ball_r = 6 \<rparr>
         \<lparr> rect_x = 150, rect_y = 600, rect_w = 60, rect_h = 10 \<rparr> \<le> 6 * 6
   \<and> 6 * 6 < dist2 (snd (reflectBallFromRect
         \<lparr> ball_x = 180, ball_y = 596, ball_vx = 30, ball_vy = 260, ball_r = 6 \<rparr>
         \<lparr> rect_x = 150, rect_y = 600, rect_w = 60, rect_h = 10 \<rparr>))
         \<lparr> rect_x = 150, rect_y = 600, rect_w = 60, rect_h = 10 \<rparr>"
proof -
  have h: "dist2 \<lparr> ball_x = 180, ball_y = 596, ball_vx = 30, ball_vy = 260, ball_r = 6 \<rparr>
         \<lparr> rect_x = 150, rect_y = 600, rect_w = 60, rect_h = 10 \<rparr>
        \<le> ball_r \<lparr> ball_x = 180, ball_y = 596, ball_vx = 30, ball_vy = 260, ball_r = 6 \<rparr>
          * ball_r \<lparr> ball_x = 180, ball_y = 596, ball_vx = 30, ball_vy = 260, ball_r = 6 \<rparr>"
    by (simp add: dist2_def offsetX_def offsetY_def closestX_def closestY_def clamp_def)
  from overlap_resolved [OF h] h show ?thesis by simp
qed

text \<open>
  The claim C1 as first stated fails for a centred ball that already moves away from the
  nearest edge: the ball below overlaps the rectangle, the top edge is nearest, and the
  call changes neither velocity component.
\<close>

theorem centred_overlap_keeps_velocity_counterexample:
  "dist2 \<lparr> ball_x = 95, ball_y = 4, ball_vx = 40, ball_vy = - 30, ball_r = 6 \<rparr>
         \<lparr> rect_x = 0, rect_y = 0, rect_w = 100, rect_h = 10 \<rparr> \<le> 6 * 6
   \<and> reflectBallFromRect \<lparr> ball_x = 95, ball_y = 4, ball_vx = 40, ball_vy = - 30, ball_r = 6 \<rparr>
         \<lparr> rect_x = 0, rect_y = 0, rect_w = 100, rect_h = 10 \<rparr>
       = (True, \<lparr> ball_x = 95, ball_y = - 13 / 2, ball_vx = 40, ball_vy = - 30, ball_r = 6 \<rparr>)"
  by (simp add: reflectBallFromRect_def pushOutNearestEdge_def dist2_def offsetX_def offsetY_def
      closestX_def closestY_def clamp_def)

text \<open>
  The claim C2 as first stated fails in the centred case: here the left edge is nearest,
  the ball is pushed out across it, and its horizontal velocity is not inverted.
\<close>

theorem centred_overlap_not_inverted_counterexample:
  "offsetX \<lparr> ball_x = 2, ball_y = 5, ball_vx = - 50, ball_vy = 70, ball_r = 6 \<rparr>
           \<lparr> rect_x = 0, rect_y = 0, rect_w = 100, rect_h = 10 \<rparr> = 0
   \<and> offsetY \<lparr> ball_x = 2, ball_y = 5, ball_vx = - 50, ball_vy = 70, ball_r = 6 \<rparr>
           \<lparr> rect_x = 0, rect_y = 0, rect_w = 100, rect_h = 10 \<rparr> = 0
   \<and> ball_x (snd (reflectBallFromRect
         \<lparr> ball_x = 2, ball_y = 5, ball_vx = - 50, ball_vy = 70, ball_r = 6 \<rparr>
         \<lparr> rect_x = 0, rect_y = 0, rect_w = 100, rect_h = 10 \<rparr>)) = - 13 / 2
   \<and> ball_vx (snd (reflectBallFromRect
         \<lparr> ball_x = 2, ball_y = 5, ball_vx = - 50, ball_vy = 70, ball_r = 6 \<rparr>
         \<lparr> rect_x = 0, rect_y = 0, rect_w = 100, rect_h = 10 \<rparr>)) \<noteq> - (- 50)"
  by (simp add: reflectBallFromRect_def pushOutNearestEdge_def dist2_def offsetX_def offsetY_def
      closestX_def closestY_def clamp_def)

text \<open>
  C8. A ball that does not overlap the rectangle (the squared distance from its centre to
  the closest point of the rectangle exceeds the squared radius) makes
  \<open>reflectBallFromRect\<close> return false and leaves the ball as it was.
\<close>

theorem no_overlap_no_mutation:
  "dist2 b rc > ball_r b * ball_r b \<Longrightarrow> reflectBallFromRect b rc = (False, b)"
  by (simp add: reflectBallFromRect_def)

theorem no_overlap_no_mutation_witness:
  "dist2 \<lparr> ball_x = 180, ball_y = 300, ball_vx = 180, ball_vy = - 260, ball_r = 6 \<rparr>
         \<lparr> rect_x = 150, rect_y = 600, rect_w = 60, rect_h = 10 \<rparr> > 6 * 6
   \<and> reflectBallFromRect \<lparr> ball_x = 180, ball_y = 300, ball_vx = 180, ball_vy = - 260, ball_r = 6 \<rparr>
         \<lparr> rect_x = 150, rect_y = 600, rect_w = 60, rect_h = 10 \<rparr>
      = (False, \<lparr> ball_x = 180, ball_y = 300, ball_vx = 180, ball_vy = - 260, ball_r = 6 \<rparr>)"
proof -
  have h: "dist2 \<lparr> ball_x = 180, ball_y = 300, ball_vx = 180, ball_vy = - 260, ball_r = 6 \<rparr>
         \<lparr> rect_x = 150, rect_y = 600, rect_w = 60, rect_h = 10 \<rparr>
        > ball_r \<lparr> ball_x = 180, ball_y = 300, ball_vx = 180, ball_vy = - 260, ball_r = 6 \<rparr>
          * ball_r \<lparr> ball_x = 180, ball_y = 300, ball_vx = 180, ball_vy = - 260, ball_r = 6 \<rparr>"
    by (simp add: dist2_def offsetX_def offsetY_def closestX_def closestY_def clamp_def)
  from no_overlap_no_mutation [OF h] h show ?thesis by simp
qed

subsection \<open>What each block of a tick leaves alone\<close>

lemma reflectBallFromRect_r: "ball_r (snd (reflectBallFromRect b rc)) = ball_r b"
  by (simp add: reflectBallFromRect_def pushOutNearestEdge_r reflectAlongAxis_def Let_def)

lemma resetBallOnPaddle_frame:
  "state (resetBallOnPaddle rnd s) = state s"
  "score (resetBallOnPaddle rnd s) = score s"
  "lives (resetBallOnPaddle rnd s) = lives s"
  "paddle (resetBallOnPaddle rnd s) = paddle s"
  "bricks (resetBallOnPaddle rnd s) = bricks s"
  "input (resetBallOnPaddle rnd s) = input s"
  "ball_r (ball (resetBallOnPaddle rnd s)) = ball_r (ball s)"
  by (simp_all add: resetBallOnPaddle_def Let_def)

lemma wallCollisions_frame:
  "state (wallCollisions s) = state s"
  "score (wallCollisions s) = score s"
  "lives (wallCollisions s) = lives s"
  "paddle (wallCollisions s) = paddle s"
  "bricks (wallCollisions s) = bricks s"
  "input (wallCollisions s) = input s"
  "ball_r (ball (wallCollisions s)) = ball_r (ball s)"
  by (simp_all add: wallCollisions_def Let_def)

lemma paddleCollision_frame:
  "state (paddleCollision s) = state s"
  "score (paddleCollision s) = score s"
  "lives (paddleCollision s) = lives s"
  "paddle (paddleCollision s) = paddle s"
  "bricks (paddleCollision s) = bricks s"
  "input (paddleCollision s) = input s"
  by (simp_all add: paddleCollision_def Let_def case_prod_beta)

lemma paddleCollision_r: "ball_r (ball (paddleCollision s)) = ball_r (ball s)"
  using reflectBallFromRect_r [of "ball s" "paddle s"]
  by (simp add: paddleCollision_def Let_def case_prod_beta)

lemma brickCollisions_frame:
  "state (brickCollisions s) = state s"
  "lives (brickCollisions s) = lives s"
  "paddle (brickCollisions s) = paddle s"
  "input (brickCollisions s) = input s"
  by (simp_all add: brickCollisions_def Let_def case_prod_beta)

lemma outOfBounds_frame:
  "score (outOfBounds rnd s) = score s"
  "paddle (outOfBounds rnd s) = paddle s"
  "bricks (outOfBounds rnd s) = bricks s"
  "input (outOfBounds rnd s) = input s"
  "ball_r (ball (outOfBounds rnd s)) = ball_r (ball s)"
  by (simp_all add: outOfBounds_def Let_def resetBallOnPaddle_frame)

lemma winCheck_frame:
  "score (winCheck s) = score s"
  "lives (winCheck s) = lives s"
  "paddle (winCheck s) = paddle s"
  "ball (winCheck s) = ball s"
  "bricks (winCheck s) = bricks s"
  "input (winCheck s) = input s"
  by (simp_all add: winCheck_def)

lemma smoothPaddle_frame:
  "state (smoothPaddle dt s) = state s"
  "score (smoothPaddle dt s) = score s"
  "lives (smoothPaddle dt s) = lives s"
  "ball (smoothPaddle dt s) = ball s"
  "bricks (smoothPaddle dt s) = bricks s"
  "input (smoothPaddle dt s) = input s"
  "rect_y (paddle (smoothPaddle dt s)) = rect_y (paddle s)"
  "rect_w (paddle (smoothPaddle dt s)) = rect_w (paddle s)"
  "rect_h (paddle (smoothPaddle dt s)) = rect_h (paddle s)"
  "targetX (paddle (smoothPaddle dt s)) = targetX (paddle s)"
  by (simp_all add: smoothPaddle_def)

lemma moveBall_frame:
  "state (moveBall dt s) = state s"
  "score (moveBall dt s) = score s"
  "lives (moveBall dt s) = lives s"
  "paddle (moveBall dt s) = paddle s"
  "bricks (moveBall dt s) = bricks s"
  "input (moveBall dt s) = input s"
  "ball_r (ball (moveBall dt s)) = ball_r (ball s)"
  by (simp_all add: moveBall_def)

subsection \<open>The loop over the bricks\<close>

lemma brickLoop_r: "ball_r (fst (brickLoop b sc bs)) = ball_r b"
proof (induction bs arbitrary: b)
  case Nil
  show ?case by simp
next
  case (Cons brick rest)
  show ?case
    using Cons.IH [of b] Cons.IH [of "snd (reflectBallFromRect b brick)"]
      reflectBallFromRect_r [of b brick]
    by (simp add: Let_def case_prod_beta)
qed

lemma brickLoop_no_hit:
  "\<forall>p \<in> set bs. \<not> (active p \<and> fst (reflectBallFromRect b p)) \<Longrightarrow>
   brickLoop b sc bs = (b, sc, bs)"
proof (induction bs)
  case Nil
  show ?case by simp
next
  case (Cons brick rest)
  have rest: "brickLoop b sc rest = (b, sc, rest)"
    using Cons by simp
  show ?case
  proof (cases "active brick")
    case True
    then have miss: "\<not> fst (reflectBallFromRect b brick)"
      using Cons.prems by simp
    then have "reflectBallFromRect b brick = (False, b)"
      by (simp add: reflectBallFromRect_def split: if_splits)
    then show ?thesis using True rest by simp
  next
    case False
    then show ?thesis using rest by simp
  qed
qed

lemma brickLoop_first_hit:
  assumes "\<forall>p \<in> set pre. \<not> (active p \<and> fst (reflectBallFromRect b p))"
    and "active brick" and "fst (reflectBallFromRect b brick)"
  shows "brickLoop b sc (pre @ brick # post)
         = (snd (reflectBallFromRect b brick), sc + 10, pre @ brick\<lparr> active := False \<rparr> # post)"
  using assms(1)
proof (induction pre)
  case Nil
  show ?case using assms(2,3) by (simp add: Let_def case_prod_beta)
next
  case (Cons p pre)
  have rest: "brickLoop b sc (pre @ brick # post)
         = (snd (reflectBallFromRect b brick), sc + 10, pre @ brick\<lparr> active := False \<rparr> # post)"
    using Cons by simp
  show ?case
  proof (cases "active p")
    case True
    then have "\<not> fst (reflectBallFromRect b p)"
      using Cons.prems by simp
    then have "reflectBallFromRect b p = (False, b)"
      by (simp add: reflectBallFromRect_def split: if_splits)
    then show ?thesis using True rest by simp
  next
    case False
    then show ?thesis using rest by simp
  qed
qed

text \<open>Either no brick is touched, or the list splits at the first brick that is.\<close>

lemma first_hit_split:
  "(\<forall>p \<in> set bs. \<not> P p) \<or>
   (\<exists>pre x post. bs = pre @ x # post \<and> (\<forall>p \<in> set pre. \<not> P p) \<and> P x)"
proof (cases "\<exists>p \<in> set bs. P p")
  case True
  then obtain pre x post where "bs = pre @ x # post" "P x" "\<forall>p \<in> set pre. \<not> P p"
    using split_list_first_prop [of bs P] by blast
  then show ?thesis by blast
next
  case False
  then show ?thesis by blast
qed

lemma brickLoop_cases:
  obtains (miss) "\<forall>p \<in> set bs. \<not> (active p \<and> fst (reflectBallFromRect b p))"
      "brickLoop b sc bs = (b, sc, bs)"
    | (hit) pre brick post where "bs = pre @ brick # post"
      "\<forall>p \<in> set pre. \<not> (active p \<and> fst (reflectBallFromRect b p))"
      "active brick" "fst (reflectBallFromRect b brick)"
      "brickLoop b sc bs
       = (snd (reflectBallFromRect b brick), sc + 10, pre @ brick\<lparr> active := False \<rparr> # post)"
  using first_hit_split [of bs "\<lambda>p. active p \<and> fst (reflectBallFromRect b p)"]
    brickLoop_no_hit [of bs b sc] brickLoop_first_hit [of _ b _ sc]
  by blast

lemma brickLoop_length: "length (snd (snd (brickLoop b sc bs))) = length bs"
  by (cases b sc bs rule: brickLoop_cases) simp_all

lemma brickLoop_inGrid:
  "list_all brickInGrid bs \<Longrightarrow> list_all brickInGrid (snd (snd (brickLoop b sc bs)))"
  by (cases b sc bs rule: brickLoop_cases) (simp_all add: brickInGrid_def)

lemma brickLoop_score:
  "fst (snd (brickLoop b sc bs)) = sc \<and> snd (snd (brickLoop b sc bs)) = bs
   \<or> fst (snd (brickLoop b sc bs)) = sc + 10 \<and> snd (snd (brickLoop b sc bs)) \<noteq> bs"
proof (cases b sc bs rule: brickLoop_cases)
  case miss
  then show ?thesis by simp
next
  case (hit pre brick post)
  have "brick\<lparr> active := False \<rparr> \<noteq> brick"
    using hit(3) by (metis brick_obj.select_convs(1) brick_obj.surjective brick_obj.update_convs(1))
  then show ?thesis using hit by simp
qed

subsection \<open>A ball that touched a rectangle is not far below it\<close>

lemma closestY_le: "0 \<le> rect_h rc \<Longrightarrow> closestY b rc \<le> rect_y rc + rect_h rc"
  by (simp add: closestY_def clamp_def)





subsection \<open>The brick grid\<close>

lemma colLoop_eq: "colLoop row col bs = bs @ map (newBrick row) [col..<cols]"
proof (induction row col bs rule: colLoop.induct)
  case (1 row col bs)
  show ?case
  proof (cases "col < cols")
    case True
    then show ?thesis
      using "1" by (subst colLoop.simps) (simp add: upt_conv_Cons)
  next
    case False
    then show ?thesis by (subst colLoop.simps) simp
  qed
qed

lemma rowLoop_eq:
  "rowLoop row bs = bs @ concat (map (\<lambda>r. map (newBrick r) [0..<cols]) [row..<rows])"
proof (induction row bs rule: rowLoop.induct)
  case (1 row bs)
  show ?case
  proof (cases "row < rows")
    case True
    then show ?thesis
      using "1" by (subst rowLoop.simps) (simp add: upt_conv_Cons colLoop_eq)
  next
    case False
    then show ?thesis by (subst rowLoop.simps) simp
  qed
qed

lemma grid_row_major:
  "rowLoop 0 [] = concat (map (\<lambda>r. map (newBrick r) [0..<cols]) [0..<rows])"
  by (simp add: rowLoop_eq)

lemma grid_length: "length (rowLoop 0 []) = rows * cols"
  by (simp add: grid_row_major length_concat comp_def sum_list_triv)

lemma grid_members:
  "b \<in> set (rowLoop 0 []) \<Longrightarrow> \<exists>row < rows. \<exists>col < cols. b = newBrick row col"
  unfolding grid_row_major by auto blast

lemma grid_inGrid: "list_all brickInGrid (rowLoop 0 [])"
proof -
  have "brickInGrid (newBrick row col)" if "row < rows" for row col
  proof -
    have "real row \<le> real (rows - 1)" using that by simp
    then have "real row * (brickH + 4) \<le> real (rows - 1) * (brickH + 4)"
      by (intro mult_right_mono) (simp_all add: brickH_def)
    then show ?thesis
      by (simp add: brickInGrid_def newBrick_def brickH_def)
  qed
  then show ?thesis
    unfolding list_all_iff using grid_members by blast
qed

lemma grid_active: "list_all active (rowLoop 0 [])"
proof -
  have "active (newBrick row col)" for row col
    by (simp add: newBrick_def)
  then show ?thesis
    unfolding list_all_iff using grid_members by blast
qed

lemma grid_nth:
  assumes "row < rows" "col < cols"
  shows "rowLoop 0 [] ! (row * cols + col) = newBrick row col"
proof -
  have "\<And>n. row < n \<Longrightarrow>
          concat (map (\<lambda>r. map (newBrick r) [0..<cols]) [0..<n]) ! (row * cols + col)
          = newBrick row col"
  proof -
    fix n show "row < n \<Longrightarrow>
          concat (map (\<lambda>r. map (newBrick r) [0..<cols]) [0..<n]) ! (row * cols + col)
          = newBrick row col"
    proof (induction n)
      case 0
      then show ?case by simp
    next
      case (Suc n)
      have len: "length (concat (map (\<lambda>r. map (newBrick r) [0..<cols]) [0..<n])) = n * cols"
        by (simp add: length_concat comp_def sum_list_triv)
      show ?case
      proof (cases "row < n")
        case True
        have "row * cols + col < Suc row * cols"
          using assms(2) by simp
        also have "\<dots> \<le> n * cols"
          using True by (intro mult_le_mono1) simp
        finally have "row * cols + col < n * cols" .
        then show ?thesis using Suc.IH True len by (simp add: nth_append)
      next
        case False
        then have "row = n" using Suc.prems by simp
        then show ?thesis using len assms(2) by (simp add: nth_append)
      qed
    qed
  qed
  then show ?thesis using assms(1) by (simp add: grid_row_major)
qed

subsection \<open>One tick, block by block\<close>

lemma update_not_playing: "state s \<noteq> Playing \<Longrightarrow> update dt rnd s = s"
  by (simp add: update_def)

lemma update_playing:
  "state s = Playing \<Longrightarrow> update dt rnd s = winCheck (outOfBounds rnd (beforeOutOfBounds dt s))"
  by (simp add: update_def checkCollisions_def beforeOutOfBounds_def)

lemma beforeOutOfBounds_frame:
  "state (beforeOutOfBounds dt s) = state s"
  "lives (beforeOutOfBounds dt s) = lives s"
  "paddle (beforeOutOfBounds dt s) = paddle (smoothPaddle dt s)"
  "input (beforeOutOfBounds dt s) = input s"
  by (simp_all add: beforeOutOfBounds_def brickCollisions_frame paddleCollision_frame
      wallCollisions_frame moveBall_frame smoothPaddle_frame)

lemma ballAtBricks_r: "ball_r (ballAtBricks dt s) = ball_r (ball s)"
  by (simp add: ballAtBricks_def paddleCollision_r wallCollisions_frame moveBall_frame
      smoothPaddle_frame)

lemma beforeOutOfBounds_loop:
  "ball (beforeOutOfBounds dt s) = fst (brickLoop (ballAtBricks dt s) (score s) (bricks s))"
  "score (beforeOutOfBounds dt s) = fst (snd (brickLoop (ballAtBricks dt s) (score s) (bricks s)))"
  "bricks (beforeOutOfBounds dt s) = snd (snd (brickLoop (ballAtBricks dt s) (score s) (bricks s)))"
  by (simp_all add: beforeOutOfBounds_def brickCollisions_def ballAtBricks_def case_prod_beta
      paddleCollision_frame wallCollisions_frame moveBall_frame smoothPaddle_frame)

lemma beforeOutOfBounds_r: "ball_r (ball (beforeOutOfBounds dt s)) = ball_r (ball s)"
  by (simp add: beforeOutOfBounds_loop brickLoop_r ballAtBricks_r)

lemma outOfBounds_state:
  "state (outOfBounds rnd s) = (if ballOutOfBounds s \<and> lives s - 1 \<le> 0 then Lose else state s)"
  by (simp add: outOfBounds_def Let_def resetBallOnPaddle_frame)

lemma outOfBounds_lives:
  "lives (outOfBounds rnd s) = (if ballOutOfBounds s then lives s - 1 else lives s)"
  by (simp add: outOfBounds_def Let_def resetBallOnPaddle_frame)

lemma outOfBounds_allCleared: "allCleared (outOfBounds rnd s) = allCleared s"
  by (simp add: allCleared_def outOfBounds_frame)

lemma winCheck_state: "state (winCheck s) = (if allCleared s then Win else state s)"
  by (simp add: winCheck_def)

lemma winCheck_allCleared: "allCleared (winCheck s) = allCleared s"
  by (simp add: allCleared_def winCheck_frame)

lemma update_state:
  "state s = Playing \<Longrightarrow>
   state (update dt rnd s)
   = (if allCleared (beforeOutOfBounds dt s) then Win
      else if ballOutOfBounds (beforeOutOfBounds dt s) \<and> lives s - 1 \<le> 0 then Lose
      else Playing)"
  by (simp add: update_playing winCheck_state outOfBounds_state outOfBounds_allCleared
      beforeOutOfBounds_frame)

lemma update_lives:
  "state s = Playing \<Longrightarrow>
   lives (update dt rnd s)
   = (if ballOutOfBounds (beforeOutOfBounds dt s) then lives s - 1 else lives s)"
  by (simp add: update_playing winCheck_frame outOfBounds_lives beforeOutOfBounds_frame)

lemma update_allCleared:
  "state s = Playing \<Longrightarrow> allCleared (update dt rnd s) = allCleared (beforeOutOfBounds dt s)"
  by (simp add: update_playing winCheck_allCleared outOfBounds_allCleared)

lemma update_bricks:
  "state s = Playing \<Longrightarrow> bricks (update dt rnd s) = bricks (beforeOutOfBounds dt s)"
  by (simp add: update_playing winCheck_frame outOfBounds_frame)

lemma update_score:
  "state s = Playing \<Longrightarrow> score (update dt rnd s) = score (beforeOutOfBounds dt s)"
  by (simp add: update_playing winCheck_frame outOfBounds_frame)

lemma update_paddle:
  "state s = Playing \<Longrightarrow> paddle (update dt rnd s) = paddle (smoothPaddle dt s)"
  by (simp add: update_playing winCheck_frame outOfBounds_frame beforeOutOfBounds_frame)

lemma update_r: "ball_r (ball (update dt rnd s)) = ball_r (ball s)"
  by (cases "state s = Playing")
    (simp_all add: update_playing update_not_playing winCheck_frame outOfBounds_frame
      beforeOutOfBounds_r)

subsection \<open>Invariants of the reachable states\<close>

lemma game_inv_update:
  assumes "game_inv s"
  shows "game_inv (update dt rnd s)"
proof (cases "state s = Playing")
  case False
  then show ?thesis using assms by (simp add: update_not_playing)
next
  case True
  have "list_all brickInGrid (bricks (beforeOutOfBounds dt s))"
    "length (bricks (beforeOutOfBounds dt s)) = rows * cols"
    using assms True by (simp_all add: beforeOutOfBounds_loop brickLoop_inGrid brickLoop_length
        game_inv_def)
  then show ?thesis
    using assms True
    by (simp add: game_inv_def update_state update_lives update_allCleared update_bricks
        update_paddle update_r smoothPaddle_frame)
qed

lemma startNewGame_fields:
  "state (startNewGame rnd s) = Playing"
  "score (startNewGame rnd s) = 0"
  "lives (startNewGame rnd s) = 3"
  "bricks (startNewGame rnd s) = rowLoop 0 []"
  "ball_r (ball (startNewGame rnd s)) = ball_r (ball s)"
  "rect_y (paddle (startNewGame rnd s)) = rect_y (paddle s)"
  "rect_w (paddle (startNewGame rnd s)) = rect_w (paddle s)"
  "rect_h (paddle (startNewGame rnd s)) = rect_h (paddle s)"
  "rect_x (paddle (startNewGame rnd s)) = GAME_W / 2 - rect_w (paddle s) / 2"
  "targetX (paddle (startNewGame rnd s)) = GAME_W / 2 - rect_w (paddle s) / 2"
  "input (startNewGame rnd s) = input s"
  by (simp_all add: startNewGame_def initGame_def Let_def resetBallOnPaddle_frame)

lemma grid_not_cleared: "\<not> list_all (\<lambda>b. \<not> active b) (rowLoop 0 [])"
proof -
  have "newBrick 0 0 \<in> set (rowLoop 0 [])"
    using grid_nth [of 0 0] grid_length nth_mem [of 0 "rowLoop 0 []"]
    by (simp add: rows_def cols_def)
  moreover have "active (newBrick 0 0)"
    by (simp add: newBrick_def)
  ultimately show ?thesis
    unfolding list_all_iff by blast
qed

lemma game_inv_startNewGame:
  assumes "game_inv s"
  shows "game_inv (startNewGame rnd s)"
  using assms grid_inGrid grid_length grid_not_cleared
  by (simp add: game_inv_def startNewGame_fields allCleared_def)

lemma game_inv_pointerdown: "game_inv s \<Longrightarrow> game_inv (pointerdown gx rnd s)"
  by (auto simp: pointerdown_def game_inv_startNewGame) (simp_all add: game_inv_def allCleared_def)

lemma game_inv_pointermove: "game_inv s \<Longrightarrow> game_inv (pointermove gx s)"
  by (simp add: pointermove_def Let_def game_inv_def allCleared_def)

lemma game_inv_pointerup: "game_inv s \<Longrightarrow> game_inv (pointerup s)"
  by (simp add: pointerup_def game_inv_def allCleared_def)

lemma game_inv_pointercancel: "game_inv s \<Longrightarrow> game_inv (pointercancel s)"
  by (simp add: pointercancel_def game_inv_def allCleared_def)

lemma game_inv_keydown: "game_inv s \<Longrightarrow> game_inv (keydown key rnd s)"
  by (auto simp: keydown_def Let_def game_inv_startNewGame)
    (simp_all add: game_inv_def allCleared_def)

lemma game_inv_initial: "game_inv initial_game"
  by (simp add: game_inv_def initial_game_def GAME_H_def allCleared_def)

lemma game_inv_dispatch: "game_inv s \<Longrightarrow> game_inv (dispatch rnd e s)"
  by (cases e)
    (simp_all add: game_inv_pointerdown game_inv_pointermove game_inv_pointerup
      game_inv_pointercancel game_inv_keydown gameLoop_def game_inv_update)

lemma reachable_game_inv: "reachable s \<Longrightarrow> game_inv s"
  by (induction rule: reachable.induct) (simp_all add: game_inv_initial game_inv_dispatch)

lemma smoothing_between:
  fixes x t f lo hi :: real
  assumes "0 \<le> f" "f \<le> 1" "lo \<le> x" "x \<le> hi" "lo \<le> t" "t \<le> hi"
  shows "lo \<le> x + (t - x) * f" and "x + (t - x) * f \<le> hi"
proof -
  have e: "x + (t - x) * f = (1 - f) * x + f * t"
    by (simp add: algebra_simps)
  have "(1 - f) * lo \<le> (1 - f) * x" "f * lo \<le> f * t"
    using assms by (simp_all add: mult_left_mono)
  then show "lo \<le> x + (t - x) * f"
    unfolding e by (simp add: algebra_simps)
  have "(1 - f) * x \<le> (1 - f) * hi" "f * t \<le> f * hi"
    using assms by (simp_all add: mult_left_mono)
  then show "x + (t - x) * f \<le> hi"
    unfolding e by (simp add: algebra_simps)
qed

lemma paddle_inv_smoothPaddle:
  assumes "paddle_inv s" "0 \<le> dt"
  shows "paddle_inv (smoothPaddle dt s)"
proof -
  have f: "0 \<le> min 1 (dt * PADDLE_SMOOTHING)" "min 1 (dt * PADDLE_SMOOTHING) \<le> 1"
    using assms(2) by (simp_all add: PADDLE_SMOOTHING_def)
  have x: "rect_x (paddle (smoothPaddle dt s))
           = rect_x (paddle s)
             + (targetX (paddle s) - rect_x (paddle s)) * min 1 (dt * PADDLE_SMOOTHING)"
    by (simp add: smoothPaddle_def)
  show ?thesis
    using assms(1) smoothing_between [OF f, of 0 "rect_x (paddle s)" "GAME_W - rect_w (paddle s)"
        "targetX (paddle s)"]
    unfolding paddle_inv_def x smoothPaddle_frame by simp
qed

lemma paddle_inv_update:
  assumes "paddle_inv s" "0 \<le> dt"
  shows "paddle_inv (update dt rnd s)"
proof (cases "state s = Playing")
  case True
  then show ?thesis
    using paddle_inv_smoothPaddle [OF assms] by (simp add: paddle_inv_def update_paddle)
next
  case False
  then show ?thesis using assms(1) by (simp add: update_not_playing)
qed

lemma paddle_inv_gameLoop:
  "paddle_inv s \<Longrightarrow> 0 \<le> elapsed \<Longrightarrow> paddle_inv (gameLoop elapsed rnd s)"
  by (simp add: gameLoop_def paddle_inv_update MAX_DT_def)

lemma clamp_between: "lo \<le> hi \<Longrightarrow> lo \<le> clamp v lo hi \<and> clamp v lo hi \<le> hi"
  by (simp add: clamp_def)

lemma paddle_inv_startNewGame:
  "rect_w (paddle s) = 60 \<Longrightarrow> paddle_inv (startNewGame rnd s)"
  by (simp add: paddle_inv_def startNewGame_fields GAME_W_def)

lemma paddle_inv_pointerdown:
  "paddle_inv s \<Longrightarrow> rect_w (paddle s) = 60 \<Longrightarrow> paddle_inv (pointerdown gx rnd s)"
  by (auto simp: pointerdown_def paddle_inv_startNewGame) (simp_all add: paddle_inv_def)

lemma paddle_inv_pointermove:
  assumes "paddle_inv s" "rect_w (paddle s) = 60"
  shows "paddle_inv (pointermove gx s)"
proof -
  have "(0::real) \<le> GAME_W - 60" by (simp add: GAME_W_def)
  then show ?thesis
    using assms clamp_between [of 0 "GAME_W - 60"]
    by (simp add: pointermove_def Let_def paddle_inv_def)
qed

lemma paddle_inv_keydown:
  assumes "paddle_inv s" "rect_w (paddle s) = 60"
  shows "paddle_inv (keydown key rnd s)"
proof -
  have "(0::real) \<le> GAME_W - 60" by (simp add: GAME_W_def)
  then show ?thesis
    using assms clamp_between [of 0 "GAME_W - 60"] paddle_inv_startNewGame [of s rnd]
    by (simp add: keydown_def Let_def paddle_inv_def)
qed

lemma paddle_inv_dispatch:
  assumes "paddle_inv s" "rect_w (paddle s) = 60" "admissible e"
  shows "paddle_inv (dispatch rnd e s)"
proof (cases e)
  case (Frame elapsed)
  then show ?thesis using assms by (simp add: paddle_inv_gameLoop)
next
  case (PointerDown gx)
  then show ?thesis using assms by (simp add: paddle_inv_pointerdown)
next
  case (PointerMove gx)
  then show ?thesis using assms by (simp add: paddle_inv_pointermove)
next
  case PointerUp
  then show ?thesis using assms by (simp add: pointerup_def paddle_inv_def)
next
  case PointerCancel
  then show ?thesis using assms by (simp add: pointercancel_def paddle_inv_def)
next
  case (KeyDown key)
  then show ?thesis using assms by (simp add: paddle_inv_keydown)
qed

lemma reachable_paddle_inv: "reachable s \<Longrightarrow> paddle_inv s"
proof (induction rule: reachable.induct)
  case initial
  show ?case by (simp add: paddle_inv_def initial_game_def GAME_W_def)
next
  case (step s e rnd)
  have "rect_w (paddle s) = 60"
    using reachable_game_inv [OF step.hyps(1)] by (simp add: game_inv_def)
  then show ?case using step by (simp add: paddle_inv_dispatch)
qed

subsection \<open>Paddle position, win and lose, and the grid\<close>

text \<open>A state in which a game runs: the initial state after one tap.\<close>

lemma reachable_first_game: "reachable (dispatch rnd (PointerDown gx) initial_game)"
  by (rule reachable.step [OF reachable.initial]) simp


text \<open>
  C7. In every reachable state the paddle lies within the playfield,
  \<open>0 \<le> paddle.x \<le> GAME_W - paddle.w\<close>, and its width and height are the 60 and 10
  it was created with. The same holds right after the smoothing step of a tick with a
  non-negative time step, and after a pointer move or a key press, which also keep the
  target position within these bounds; no event changes the width or the height.
\<close>

theorem paddle_stays_in_field:
  assumes "reachable s"
  shows "0 \<le> rect_x (paddle s) \<and> rect_x (paddle s) \<le> GAME_W - rect_w (paddle s)
       \<and> rect_w (paddle s) = 60 \<and> rect_h (paddle s) = 10
       \<and> (\<forall>dt. 0 \<le> dt \<longrightarrow>
            0 \<le> rect_x (paddle (smoothPaddle dt s))
            \<and> rect_x (paddle (smoothPaddle dt s)) \<le> GAME_W - rect_w (paddle (smoothPaddle dt s)))
       \<and> (\<forall>gx. 0 \<le> rect_x (paddle (pointermove gx s))
            \<and> rect_x (paddle (pointermove gx s)) \<le> GAME_W - rect_w (paddle (pointermove gx s))
            \<and> 0 \<le> targetX (paddle (pointermove gx s))
            \<and> targetX (paddle (pointermove gx s)) \<le> GAME_W - rect_w (paddle (pointermove gx s)))
       \<and> (\<forall>key rnd. 0 \<le> rect_x (paddle (keydown key rnd s))
            \<and> rect_x (paddle (keydown key rnd s)) \<le> GAME_W - rect_w (paddle (keydown key rnd s))
            \<and> 0 \<le> targetX (paddle (keydown key rnd s))
            \<and> targetX (paddle (keydown key rnd s)) \<le> GAME_W - rect_w (paddle (keydown key rnd s)))
       \<and> (\<forall>rnd e. rect_w (paddle (dispatch rnd e s)) = rect_w (paddle s)
            \<and> rect_h (paddle (dispatch rnd e s)) = rect_h (paddle s))"
proof -
  have p: "paddle_inv s" using assms by (rule reachable_paddle_inv)
  have g: "game_inv s" using assms by (rule reachable_game_inv)
  have w: "rect_w (paddle s) = 60" "rect_h (paddle s) = 10"
    using g by (simp_all add: game_inv_def)
  have "paddle_inv (smoothPaddle dt s)" if "0 \<le> dt" for dt
    using p that by (rule paddle_inv_smoothPaddle)
  moreover have "paddle_inv (pointermove gx s)" for gx
    using p w(1) by (rule paddle_inv_pointermove)
  moreover have "paddle_inv (keydown key rnd s)" for key rnd
    using p w(1) by (rule paddle_inv_keydown)
  moreover have "rect_w (paddle (dispatch rnd e s)) = 60 \<and> rect_h (paddle (dispatch rnd e s)) = 10"
    for rnd e
    using game_inv_dispatch [OF g, of rnd e] by (simp add: game_inv_def)
  ultimately show ?thesis
    using p w unfolding paddle_inv_def by simp
qed

theorem paddle_stays_in_field_witness:
  "reachable (dispatch (3 / 4) (PointerDown 100) initial_game)
   \<and> 0 \<le> rect_x (paddle (dispatch (3 / 4) (PointerDown 100) initial_game))
   \<and> rect_x (paddle (dispatch (3 / 4) (PointerDown 100) initial_game)) \<le> 300
   \<and> 0 \<le> rect_x (paddle (smoothPaddle (1 / 60) (dispatch (3 / 4) (PointerDown 100) initial_game)))"
proof -
  have r: "reachable (dispatch (3 / 4) (PointerDown 100) initial_game)"
    by (rule reachable_first_game)
  have d: "(0::real) \<le> 1 / 60" by simp
  from paddle_stays_in_field [OF r] r d show ?thesis
    by (simp add: GAME_W_def)
qed




text \<open>
  C9. Whenever the mode is playing the brick list holds exactly 40 bricks, at least one of
  them active, so the win check is never vacuous: a tick that ends in win has destroyed a
  brick (the score rose by 10 and the brick list changed). \<open>startNewGame\<close> sets the
  mode to playing and builds the 40 active bricks in the same call.
\<close>

theorem playing_has_full_grid:
  assumes "reachable s"
  shows "(state s \<noteq> Menu \<longrightarrow> length (bricks s) = 40)
       \<and> (state s = Playing \<longrightarrow> length (bricks s) = 40 \<and> \<not> allCleared s
            \<and> (\<forall>dt rnd. state (update dt rnd s) = Win \<longrightarrow>
                  score (update dt rnd s) = score s + 10
                  \<and> bricks (update dt rnd s) \<noteq> bricks s))
       \<and> (\<forall>rnd. state (startNewGame rnd s) = Playing
            \<and> length (bricks (startNewGame rnd s)) = 40
            \<and> list_all active (bricks (startNewGame rnd s)))"
proof -
  have g: "game_inv s" using assms by (rule reachable_game_inv)
  have len: "state s \<noteq> Menu \<longrightarrow> length (bricks s) = 40"
    using g by (simp add: game_inv_def rows_def cols_def)
  have destroyed: "score (update dt rnd s) = score s + 10 \<and> bricks (update dt rnd s) \<noteq> bricks s"
    if "state s = Playing" "state (update dt rnd s) = Win" for dt rnd
  proof -
    have "\<not> allCleared s" using g that(1) by (simp add: game_inv_def)
    moreover have "allCleared (update dt rnd s)"
      using game_inv_update [OF g, of dt rnd] that(2) by (simp add: game_inv_def)
    ultimately have "bricks (update dt rnd s) \<noteq> bricks s"
      by (auto simp: allCleared_def)
    then show ?thesis
      using that(1) brickLoop_score [of "ballAtBricks dt s" "score s" "bricks s"]
      by (auto simp: update_bricks update_score beforeOutOfBounds_loop)
  qed
  have start: "state (startNewGame rnd s) = Playing
            \<and> length (bricks (startNewGame rnd s)) = 40
            \<and> list_all active (bricks (startNewGame rnd s))" for rnd
    using grid_length grid_active by (simp add: startNewGame_fields rows_def cols_def)
  show ?thesis
    using g len destroyed start by (simp add: game_inv_def)
qed

theorem playing_has_full_grid_witness:
  "reachable (dispatch (1 / 3) (KeyDown ''Enter'') initial_game)
   \<and> state (dispatch (1 / 3) (KeyDown ''Enter'') initial_game) = Playing
   \<and> length (bricks (dispatch (1 / 3) (KeyDown ''Enter'') initial_game)) = 40
   \<and> \<not> allCleared (dispatch (1 / 3) (KeyDown ''Enter'') initial_game)"
proof -
  have r: "reachable (dispatch (1 / 3) (KeyDown ''Enter'') initial_game)"
    by (rule reachable.step [OF reachable.initial]) simp
  have p: "state (dispatch (1 / 3) (KeyDown ''Enter'') initial_game) = Playing"
    by (simp add: keydown_def initial_game_def startNewGame_fields)
  from playing_has_full_grid [OF r] r p show ?thesis
    by simp
qed

subsection \<open>Out of bounds\<close>

lemma outOfBounds_respawn:
  assumes "ballOutOfBounds s" "0 < lives s - 1"
  shows "outOfBounds rnd s
         = s\<lparr> lives := lives s - 1,
              ball := \<lparr> ball_x = rect_x (paddle s) + rect_w (paddle s) / 2,
                        ball_y = rect_y (paddle s) - ball_r (ball s) - 1,
                        ball_vx = (if rnd > 1 / 2 then 180 else - 180),
                        ball_vy = - 260,
                        ball_r = ball_r (ball s) \<rparr> \<rparr>"
  using assms
  by (simp add: outOfBounds_def resetBallOnPaddle_def Let_def BALL_SPEED_X_def BALL_SPEED_Y_def)


lemma outOfBounds_inside: "\<not> ballOutOfBounds s \<Longrightarrow> outOfBounds rnd s = s"
  by (simp add: outOfBounds_def)

text \<open>
  C10. When the ball is out of bounds and a life remains after the decrement, the
  out-of-bounds block changes only the lives and the ball: the ball is put at the paddle's
  horizontal centre with \<open>y = paddle.y - ball.r - 1\<close>, \<open>vy = -260\<close> and
  \<open>vx = 180\<close> or \<open>-180\<close> by the random draw, its radius kept. The score, the bricks
  and the paddle are as before, also at the end of the tick.
\<close>

theorem respawn_touches_ball_only:
  assumes "ballOutOfBounds s" and "0 < lives s - 1"
  shows "outOfBounds rnd s
         = s\<lparr> lives := lives s - 1,
              ball := \<lparr> ball_x = rect_x (paddle s) + rect_w (paddle s) / 2,
                        ball_y = rect_y (paddle s) - ball_r (ball s) - 1,
                        ball_vx = (if rnd > 1 / 2 then 180 else - 180),
                        ball_vy = - 260,
                        ball_r = ball_r (ball s) \<rparr> \<rparr>
       \<and> score (outOfBounds rnd s) = score s
       \<and> bricks (outOfBounds rnd s) = bricks s
       \<and> paddle (outOfBounds rnd s) = paddle s
       \<and> (\<forall>dt t. state t = Playing \<and> beforeOutOfBounds dt t = s \<longrightarrow>
            ball (update dt rnd t) = ball (outOfBounds rnd s)
            \<and> lives (update dt rnd t) = lives s - 1
            \<and> score (update dt rnd t) = score s
            \<and> bricks (update dt rnd t) = bricks s
            \<and> paddle (update dt rnd t) = paddle s)"
proof -
  have tick: "ball (update dt rnd t) = ball (outOfBounds rnd s)
            \<and> lives (update dt rnd t) = lives s - 1
            \<and> score (update dt rnd t) = score s
            \<and> bricks (update dt rnd t) = bricks s
            \<and> paddle (update dt rnd t) = paddle s"
    if "state t = Playing" "beforeOutOfBounds dt t = s" for dt t
    using that assms(1)
    by (simp add: update_playing winCheck_frame outOfBounds_frame outOfBounds_lives)
  show ?thesis
    using outOfBounds_respawn [OF assms, of rnd] tick
    by (simp add: outOfBounds_frame)
qed

theorem respawn_touches_ball_only_witness:
  "ballOutOfBounds (initial_game\<lparr> state := Playing,
       ball := \<lparr> ball_x = 100, ball_y = 700, ball_vx = 40, ball_vy = 260, ball_r = 6 \<rparr> \<rparr>)
   \<and> ball (outOfBounds (3 / 4) (initial_game\<lparr> state := Playing,
       ball := \<lparr> ball_x = 100, ball_y = 700, ball_vx = 40, ball_vy = 260, ball_r = 6 \<rparr> \<rparr>))
      = \<lparr> ball_x = 180, ball_y = 593, ball_vx = 180, ball_vy = - 260, ball_r = 6 \<rparr>
   \<and> paddle (outOfBounds (3 / 4) (initial_game\<lparr> state := Playing,
       ball := \<lparr> ball_x = 100, ball_y = 700, ball_vx = 40, ball_vy = 260, ball_r = 6 \<rparr> \<rparr>))
      = paddle initial_game"
proof -
  have o: "ballOutOfBounds (initial_game\<lparr> state := Playing,
       ball := \<lparr> ball_x = 100, ball_y = 700, ball_vx = 40, ball_vy = 260, ball_r = 6 \<rparr> \<rparr>)"
    by (simp add: ballOutOfBounds_def GAME_H_def)
  have l: "0 < lives (initial_game\<lparr> state := Playing,
       ball := \<lparr> ball_x = 100, ball_y = 700, ball_vx = 40, ball_vy = 260, ball_r = 6 \<rparr> \<rparr>) - 1"
    by (simp add: initial_game_def)
  from respawn_touches_ball_only [OF o l, of "3 / 4"] o show ?thesis
    by (simp add: initial_game_def GAME_W_def GAME_H_def)
qed

subsection \<open>Lives\<close>

lemma brickInGrid_bottom: "brickInGrid p \<Longrightarrow> 0 \<le> rect_h p \<and> rect_y p + rect_h p \<le> 196"
  by (simp add: brickInGrid_def brickH_def startY_def rows_def)






subsection \<open>Score\<close>







subsection \<open>The paddle\<close>

lemma reflectBallFromRect_abs_vy:
  "\<bar>ball_vy (snd (reflectBallFromRect b rc))\<bar> = \<bar>ball_vy b\<bar>"
proof -
  have "\<bar>ball_vy (pushOutNearestEdge b rc)\<bar> = \<bar>ball_vy b\<bar>"
    unfolding pushOutNearestEdge_def Let_def by (rule if_chain4) simp_all
  moreover have "\<bar>ball_vy (reflectAlongAxis b rc)\<bar> = \<bar>ball_vy b\<bar>"
    by (simp add: reflectAlongAxis_def Let_def)
  ultimately show ?thesis
    by (simp add: reflectBallFromRect_def)
qed

lemma paddleCollision_hit:
  assumes "fst (reflectBallFromRect (ball s) (paddle s))"
  shows "ball (paddleCollision s)
         = (snd (reflectBallFromRect (ball s) (paddle s)))\<lparr>
             ball_vy := - \<bar>ball_vy (ball s)\<bar>,
             ball_vx := clamp ((ball_x (snd (reflectBallFromRect (ball s) (paddle s)))
                                - rect_x (paddle s)) / rect_w (paddle s) - 1 / 2)
                          (- (1 / 2)) (1 / 2) * 420 \<rparr>"
  using assms reflectBallFromRect_abs_vy [of "ball s" "paddle s"]
  by (simp add: paddleCollision_def Let_def case_prod_beta)

lemma paddleCollision_miss:
  "\<not> fst (reflectBallFromRect (ball s) (paddle s)) \<Longrightarrow> paddleCollision s = s"
  by (simp add: paddleCollision_def Let_def case_prod_beta reflectBallFromRect_def split: if_splits)

lemma brick_far_above:
  assumes "brickInGrid p" "ball_r b = 6" "300 \<le> ball_y b"
  shows "\<not> fst (reflectBallFromRect b p)"
proof -
  have g: "0 \<le> rect_h p" "rect_y p + rect_h p \<le> 196"
    using brickInGrid_bottom [OF assms(1)] by simp_all
  have "closestY b p \<le> rect_y p + rect_h p"
    using g(1) by (rule closestY_le)
  then have far: "6 < offsetY b p"
    using g(2) assms(3) by (simp add: offsetY_def)
  have "6 * 6 < offsetY b p * offsetY b p"
    using far by (intro mult_strict_mono) simp_all
  also have "\<dots> \<le> dist2 b p"
    by (simp add: dist2_def)
  finally show ?thesis
    using assms(2) by (simp add: reflectBallFromRect_def)
qed

lemma centre_hit_on_paddle:
  fixes dt :: real
  assumes "0 \<le> dt" "dt \<le> 1 / 30"
  shows "reflectBallFromRect
           \<lparr> ball_x = 180, ball_y = 600 + 260 * dt, ball_vx = 0, ball_vy = 260, ball_r = 6 \<rparr>
           \<lparr> rect_x = 150, rect_y = 600, rect_w = 60, rect_h = 10, targetX = 150 \<rparr>
         = (True, \<lparr> ball_x = 180,
                    ball_y = (if 260 * dt \<le> 10 - 260 * dt then 600 - 6 - 1 / 2 else 600 + 10 + 6 + 1 / 2),
                    ball_vx = 0,
                    ball_vy = (if 260 * dt \<le> 10 - 260 * dt then - 260 else 260),
                    ball_r = 6 \<rparr>)"
proof -
  let ?b = "\<lparr> ball_x = 180, ball_y = 600 + 260 * dt, ball_vx = 0, ball_vy = 260, ball_r = 6 \<rparr>"
  let ?p = "\<lparr> rect_x = 150, rect_y = 600, rect_w = 60, rect_h = 10, targetX = 150 \<rparr>"
  have d: "0 \<le> 260 * dt" "260 * dt \<le> 9" using assms by simp_all
  have ox: "offsetX ?b ?p = 0"
    by (simp add: offsetX_def closestX_def clamp_def)
  have oy: "offsetY ?b ?p = 0"
    using d by (simp add: offsetY_def closestY_def clamp_def)
  have r: "reflectBallFromRect ?b ?p = (True, pushOutNearestEdge ?b ?p)"
    by (simp add: reflectBallFromRect_def dist2_def ox oy)
  have top: "\<bar>ball_y ?b - rect_y ?p\<bar> = 260 * dt"
    using d by simp
  have bottom: "\<bar>rect_y ?p + rect_h ?p - ball_y ?b\<bar> = 10 - 260 * dt"
    using d by simp
  have left: "\<bar>ball_x ?b - rect_x ?p\<bar> = 30" by simp
  have right: "\<bar>rect_x ?p + rect_w ?p - ball_x ?b\<bar> = 30" by simp
  show ?thesis
  proof (cases "260 * dt \<le> 10 - 260 * dt")
    case True
    then have m: "min (min (min 30 30) (260 * dt)) (10 - 260 * dt) = 260 * dt"
      using d by simp
    have "260 * dt \<noteq> 30" using d by simp
    then show ?thesis
      unfolding r pushOutNearestEdge_def Let_def top bottom left right m
      using True by simp
  next
    case False
    then have m: "min (min (min 30 30) (260 * dt)) (10 - 260 * dt) = 10 - 260 * dt"
      using d by simp
    have "10 - 260 * dt \<noteq> 30" "10 - 260 * dt \<noteq> 260 * dt" using d False by simp_all
    then show ?thesis
      unfolding r pushOutNearestEdge_def Let_def top bottom left right m
      using False by simp
  qed
qed

lemma scenario_centre_hit:
  assumes "state t = Playing"
    and "ball t = \<lparr> ball_x = 180, ball_y = 600, ball_vx = 0, ball_vy = 260, ball_r = 6 \<rparr>"
    and "paddle t = \<lparr> rect_x = 150, rect_y = 600, rect_w = 60, rect_h = 10, targetX = 150 \<rparr>"
    and "list_all brickInGrid (bricks t)" and "0 \<le> dt" and "dt \<le> MAX_DT"
  shows "fst (reflectBallFromRect (ball (wallCollisions (moveBall dt (smoothPaddle dt t))))
                (paddle (wallCollisions (moveBall dt (smoothPaddle dt t)))))
       \<and> ball_vy (ball (update dt rnd t)) = - 260
       \<and> ball_vx (ball (update dt rnd t)) = 0"
proof -
  let ?w = "wallCollisions (moveBall dt (smoothPaddle dt t))"
  let ?y = "if 260 * dt \<le> 10 - 260 * dt then 600 - 6 - 1 / 2 else 600 + 10 + 6 + (1 / 2 :: real)"
  have dt: "dt \<le> 1 / 30" using assms(6) by (simp add: MAX_DT_def)
  have pw: "paddle ?w = \<lparr> rect_x = 150, rect_y = 600, rect_w = 60, rect_h = 10, targetX = 150 \<rparr>"
    using assms(3) by (simp add: wallCollisions_frame moveBall_frame smoothPaddle_def)
  have bw: "ball ?w
            = \<lparr> ball_x = 180, ball_y = 600 + 260 * dt, ball_vx = 0, ball_vy = 260, ball_r = 6 \<rparr>"
    using assms(2,5)
    by (simp add: wallCollisions_def Let_def moveBall_def smoothPaddle_def GAME_W_def)
  have hit: "fst (reflectBallFromRect (ball ?w) (paddle ?w))"
    unfolding pw bw using centre_hit_on_paddle [OF assms(5) dt] by simp
  have bp: "ball (paddleCollision ?w)
            = \<lparr> ball_x = 180, ball_y = ?y, ball_vx = 0, ball_vy = - 260, ball_r = 6 \<rparr>"
    unfolding paddleCollision_hit [OF hit]
    unfolding pw bw centre_hit_on_paddle [OF assms(5) dt]
    by (simp add: clamp_def)
  have ab: "ballAtBricks dt t
            = \<lparr> ball_x = 180, ball_y = ?y, ball_vx = 0, ball_vy = - 260, ball_r = 6 \<rparr>"
    using bp by (simp add: ballAtBricks_def)
  have "\<forall>p \<in> set (bricks t). \<not> (active p \<and> fst (reflectBallFromRect (ballAtBricks dt t) p))"
  proof
    fix p assume "p \<in> set (bricks t)"
    then have "brickInGrid p" using assms(4) by (simp add: list_all_iff)
    then have "\<not> fst (reflectBallFromRect (ballAtBricks dt t) p)"
      by (rule brick_far_above) (simp_all add: ab)
    then show "\<not> (active p \<and> fst (reflectBallFromRect (ballAtBricks dt t) p))" by simp
  qed
  then have bm: "ball (beforeOutOfBounds dt t) = ballAtBricks dt t"
    by (simp add: beforeOutOfBounds_loop brickLoop_no_hit)
  have "\<not> ballOutOfBounds (beforeOutOfBounds dt t)"
    by (simp add: ballOutOfBounds_def bm ab GAME_H_def)
  then have "ball (update dt rnd t) = ballAtBricks dt t"
    using assms(1) bm by (simp add: update_playing winCheck_frame outOfBounds_inside)
  then show ?thesis
    using hit ab by simp
qed

text \<open>
  C6. When the collision routine reports a hit on the paddle (of non-zero width), the
  paddle block sets \<open>vy\<close> to \<open>- |vy|\<close> and replaces \<open>vx\<close> by
  \<open>clamp ((ball.x - paddle.x) / paddle.w - 0.5) (-0.5) 0.5 * 420\<close>, whatever the
  reflection had computed. In scenario A (ball at (180, 600) with velocity (0, 260), the
  paddle at rest at x = 150..210, y = 600..610, the bricks in the grid, a time step
  between 0 and \<open>MAX_DT\<close>) the tick hits the paddle and ends with \<open>vy = -260\<close>
  and \<open>vx = 0\<close>.
\<close>

theorem paddle_bounce:
  "(fst (reflectBallFromRect (ball s) (paddle s)) \<and> rect_w (paddle s) \<noteq> 0 \<longrightarrow>
      ball (paddleCollision s)
      = (snd (reflectBallFromRect (ball s) (paddle s)))\<lparr>
          ball_vy := - \<bar>ball_vy (ball s)\<bar>,
          ball_vx := clamp ((ball_x (snd (reflectBallFromRect (ball s) (paddle s)))
                             - rect_x (paddle s)) / rect_w (paddle s) - 1 / 2)
                       (- (1 / 2)) (1 / 2) * 420 \<rparr>
      \<and> ball_vy (ball (paddleCollision s)) \<le> 0
      \<and> \<bar>ball_vx (ball (paddleCollision s))\<bar> \<le> 210)
   \<and> (state t = Playing
      \<and> ball t = \<lparr> ball_x = 180, ball_y = 600, ball_vx = 0, ball_vy = 260, ball_r = 6 \<rparr>
      \<and> paddle t = \<lparr> rect_x = 150, rect_y = 600, rect_w = 60, rect_h = 10, targetX = 150 \<rparr>
      \<and> list_all brickInGrid (bricks t) \<and> 0 \<le> dt \<and> dt \<le> MAX_DT \<longrightarrow>
      fst (reflectBallFromRect (ball (wallCollisions (moveBall dt (smoothPaddle dt t))))
            (paddle (wallCollisions (moveBall dt (smoothPaddle dt t)))))
      \<and> ball_vy (ball (update dt rnd t)) = - 260
      \<and> ball_vx (ball (update dt rnd t)) = 0)"
proof -
  have general: "ball (paddleCollision s)
      = (snd (reflectBallFromRect (ball s) (paddle s)))\<lparr>
          ball_vy := - \<bar>ball_vy (ball s)\<bar>,
          ball_vx := clamp ((ball_x (snd (reflectBallFromRect (ball s) (paddle s)))
                             - rect_x (paddle s)) / rect_w (paddle s) - 1 / 2)
                       (- (1 / 2)) (1 / 2) * 420 \<rparr>
      \<and> ball_vy (ball (paddleCollision s)) \<le> 0
      \<and> \<bar>ball_vx (ball (paddleCollision s))\<bar> \<le> 210"
    if h: "fst (reflectBallFromRect (ball s) (paddle s))"
  proof -
    have "\<bar>clamp v (- (1 / 2)) (1 / 2) * 420\<bar> \<le> 210" for v :: real
    proof -
      have "- (1 / 2) \<le> clamp v (- (1 / 2)) (1 / 2) \<and> clamp v (- (1 / 2)) (1 / 2) \<le> 1 / 2"
        by (rule clamp_between) simp
      then show ?thesis by (simp add: abs_le_iff)
    qed
    then show ?thesis
      unfolding paddleCollision_hit [OF h] by simp
  qed
  show ?thesis
    using general scenario_centre_hit [of t dt rnd] by blast
qed

theorem paddle_bounce_witness:
  "fst (reflectBallFromRect (ball scenarioGame) (paddle scenarioGame))
   \<and> rect_w (paddle scenarioGame) \<noteq> 0
   \<and> ball_vy (ball (paddleCollision scenarioGame)) \<le> 0
   \<and> (0::real) \<le> 1 / 60 \<and> 1 / 60 \<le> MAX_DT
   \<and> ball_vy (ball (update (1 / 60) (1 / 2) scenarioGame)) = - 260
   \<and> ball_vx (ball (update (1 / 60) (1 / 2) scenarioGame)) = 0"
proof -
  have h: "fst (reflectBallFromRect (ball scenarioGame) (paddle scenarioGame))"
    by (simp add: scenarioGame_def initial_game_def GAME_W_def GAME_H_def reflectBallFromRect_def
        dist2_def offsetX_def offsetY_def closestX_def closestY_def clamp_def)
  have w: "rect_w (paddle scenarioGame) \<noteq> 0"
    by (simp add: scenarioGame_def initial_game_def)
  have t: "state scenarioGame = Playing"
    "ball scenarioGame = \<lparr> ball_x = 180, ball_y = 600, ball_vx = 0, ball_vy = 260, ball_r = 6 \<rparr>"
    "paddle scenarioGame
     = \<lparr> rect_x = 150, rect_y = 600, rect_w = 60, rect_h = 10, targetX = 150 \<rparr>"
    by (simp_all add: scenarioGame_def initial_game_def GAME_W_def GAME_H_def)
  have g: "list_all brickInGrid (bricks scenarioGame)"
    by (simp add: scenarioGame_def brickInGrid_def newBrick_def brickH_def)
  have d: "(0::real) \<le> 1 / 60" "1 / 60 \<le> MAX_DT"
    by (simp_all add: MAX_DT_def)
  from paddle_bounce [of scenarioGame scenarioGame "1 / 60" "1 / 2"] h w t g d
  show ?thesis by simp
qed

end
